theory Spec2Isabelle
  imports Main "HOL-Library.Word" "HOL-Library.AList" "HOL-Library.Multiset"
begin

section \<open>Storage-folder addition of the contract manager\<close>

text \<open>
  A shallow embedding of \<^verbatim>\<open>modules/host/contractmanager/storagefolderadd.go\<close>.
  The Go code runs against a file system, a write-ahead log, a logger, a random source
  and a fault-injection hook. The state these touch is the record \<open>world\<close>; what the
  outside decides (which operation fails, what the random source returns) is the record
  \<open>dependencies\<close>. Every function takes the world and returns the new one, together
  with the Go \<^verbatim>\<open>error\<close> as an \<open>error option\<close> (\<open>None\<close> is \<^verbatim>\<open>nil\<close>).
  The model is sequential: the mutex and the wait on \<^verbatim>\<open>syncChan\<close> have no effect
  on a single thread and are left out.
\<close>

subsection \<open>Data\<close>

type_synonym uint16 = "16 word"
type_synonym uint64 = "64 word"

text \<open>
  Go errors. The package-level error values of the contract manager are constructors;
  an error of the operating system or of another package is \<open>OSError\<close> with its text.
\<close>

datatype error =
    errRepeatFolder
  | errMaxStorageFolders
  | errLargeStorageFolder
  | errSmallStorageFolder
  | errStorageFolderGranularity
  | errRelativePath
  | errStorageFolderNotFolder
  | OSError string
  | Extended string error
  | Composed "error list"

text \<open>
  The struct \<^verbatim>\<open>storageFolder\<close>, with the fields the file uses. \<open>file'\<close> (Go: \<^verbatim>\<open>file\<close>) is the
  handle \<^verbatim>\<open>*os.File\<close>: the name of the open file, \<open>None\<close> for \<^verbatim>\<open>nil\<close>.
\<close>

record storageFolder =
  Index :: uint16
  Path :: string
  Usage :: "uint64 list"
  file' :: "string option"
  atomicProgressNumerator :: uint64
  atomicProgressDenominator :: uint64
  failedReads :: uint64

text \<open>
  The struct \<^verbatim>\<open>stateChange\<close>, with the three fields the file uses. The Go slices hold
  pointers to storage folders; the model holds the folder as it is when the record is
  built, which is also what the serialised record holds. The fields the file reads
  from a logged folder (\<open>Index\<close>, \<open>Path\<close>) are not written after the record is built.
\<close>

record stateChange =
  UnfinishedStorageFolderAdditions :: "storageFolder list"
  StorageFolderAdditions :: "storageFolder list"
  ErroredStorageFolderAdditions :: "uint16 list"

text \<open>
  The constants of the package that the file uses and that are declared elsewhere;
  several of them depend on the build (release, dev, testing), so they are parameters.
\<close>

record constants =
  SectorSize :: uint64
  sectorMetadataDiskSize :: uint64
  maximumSectorsPerStorageFolder :: uint64
  minimumSectorsPerStorageFolder :: uint64
  storageFolderGranularity :: uint64
  maximumStorageFolders :: uint64
  sectorFile :: string

datatype logarg = Str string | Err "error option"

text \<open>
  What the code does to the outside, in order: the trace of the run. A failed attempt
  is in the trace with its error. \<open>Progress n d\<close> is written after every atomic
  store or add on a progress counter, with the values of numerator and denominator
  that a concurrent reader sees from then on.
\<close>

datatype event =
    LogCritical string
  | LogPrintln "logarg list"
  | CreateFile string "error option"
  | WriteFile string nat "error option"
  | SyncFile string "error option"
  | RemoveFile string "error option"
  | OpenFile string "error option"
  | AppendChange stateChange "error option"
  | Disrupt string bool
  | Progress uint64 uint64

text \<open>
  \<open>storageFolders\<close> is \<^verbatim>\<open>wal.cm.storageFolders\<close>, a Go map from index to folder,
  as an association list with distinct keys (the Go code ranges over it).
  \<open>uncommittedChanges\<close> is \<^verbatim>\<open>wal.uncommittedChanges\<close>. \<open>files\<close> is the disk:
  the length in bytes of every regular file (the code only writes zero bytes).
\<close>

record world =
  storageFolders :: "(uint16 \<times> storageFolder) list"
  uncommittedChanges :: "stateChange list"
  files :: "string \<rightharpoonup> nat"
  events :: "event list"

text \<open>
  The outside. \<open>filepathIsAbs\<close> and \<open>filepathJoin\<close> are the functions of Go's
  \<^verbatim>\<open>path/filepath\<close>; \<open>osStat\<close> is \<^verbatim>\<open>os.Stat\<close> followed by \<^verbatim>\<open>Mode().IsDir()\<close>;
  \<open>RandIntn\<close> is \<^verbatim>\<open>crypto.RandIntn\<close>; \<open>disrupt\<close> is the fault-injection hook;
  \<open>tgAdd\<close> is the result of \<^verbatim>\<open>cm.tg.Add()\<close>. The \<open>...Err\<close> fields say which
  operation fails: creating, removing or opening a file by its name, a write by the
  length of the file before it, the sync of a file by its name, the append of a
  record to the log by the record. Go ranges over a map in an order that the runtime
  picks: \<open>rangeOrder\<close> is that order, applied to the entries of the map.
\<close>

record dependencies =
  tgAdd :: "error option"
  filepathIsAbs :: "string \<Rightarrow> bool"
  filepathJoin :: "string \<Rightarrow> string \<Rightarrow> string"
  osStat :: "string \<Rightarrow> error + bool"
  RandIntn :: "int \<Rightarrow> int \<times> error option"
  disrupt :: "string \<Rightarrow> bool"
  createErr :: "string \<Rightarrow> error option"
  writeErr :: "nat \<Rightarrow> error option"
  syncErr :: "string \<Rightarrow> error option"
  removeErr :: "string \<Rightarrow> error option"
  openErr :: "string \<Rightarrow> error option"
  appendErr :: "stateChange \<Rightarrow> error option"
  rangeOrder :: "(uint16 \<times> storageFolder) list \<Rightarrow> (uint16 \<times> storageFolder) list"

subsection \<open>Collaborators\<close>

definition emit :: "event \<Rightarrow> world \<Rightarrow> world" where
  "emit ev w = w\<lparr>events := events w @ [ev]\<rparr>"

text \<open>
  Modelled from the spec: \<^verbatim>\<open>build.ExtendErr\<close>, a helper of the repository's \<^verbatim>\<open>build\<close>
  package that is not among the source files. It puts a context string before an error
  and keeps \<^verbatim>\<open>nil\<close>; the extended error is the constructor \<open>Extended\<close>, so nothing
  is assumed about its text.
\<close>

fun ExtendErr :: "string \<Rightarrow> error option \<Rightarrow> error option" where
  "ExtendErr s None = None"
| "ExtendErr s (Some e) = Some (Extended s e)"

text \<open>
  Modelled from the spec: \<^verbatim>\<open>build.ComposeErrors\<close>, the "error-composition helper that
  merges multiple concurrent errors into one", not among the source files. \<^verbatim>\<open>nil\<close>
  arguments are dropped, no error at all gives \<^verbatim>\<open>nil\<close>, and the composed error
  holds every error it was given.
\<close>

definition ComposeErrors :: "error option list \<Rightarrow> error option" where
  "ComposeErrors errs =
     (case List.map_filter id errs of [] \<Rightarrow> None | es \<Rightarrow> Some (Composed es))"

text \<open>
  Modelled from the spec: \<^verbatim>\<open>wal.appendChange\<close>, which is not among the source files.
  It "serializes and durably appends one StateChange to the log; returns an error on
  I/O failure"; the records not yet confirmed flushed are "held in memory".
\<close>

definition appendChange :: "dependencies \<Rightarrow> stateChange \<Rightarrow> world \<Rightarrow> error option \<times> world" where
  "appendChange d sc w =
     (case appendErr d sc of
        Some e \<Rightarrow> (Some e, emit (AppendChange sc (Some e)) w)
      | None \<Rightarrow> (None, emit (AppendChange sc None)
                         (w\<lparr>uncommittedChanges := uncommittedChanges w @ [sc]\<rparr>)))"

text \<open>
  The file operations of the operating system, on the files of the world. Creating a
  file truncates it (\<^verbatim>\<open>dependencies.createFile\<close> is \<^verbatim>\<open>os.Create\<close> outside of tests); a
  write appends at the end of what was written before; removing or opening a file that
  does not exist fails; a failed write is taken to write nothing (the code never reads
  the length of a file after a failed write).
\<close>

definition createFile :: "dependencies \<Rightarrow> string \<Rightarrow> world \<Rightarrow> (string option \<times> error option) \<times> world" where
  "createFile d name w =
     (case createErr d name of
        Some e \<Rightarrow> ((None, Some e), emit (CreateFile name (Some e)) w)
      | None \<Rightarrow> ((Some name, None),
                  emit (CreateFile name None) (w\<lparr>files := (files w)(name \<mapsto> 0)\<rparr>)))"

definition fileWrite :: "dependencies \<Rightarrow> string option \<Rightarrow> nat \<Rightarrow> world \<Rightarrow> error option \<times> world" where
  "fileWrite d h n w =
     (case h of
        None \<Rightarrow> (Some (OSError ''invalid argument''), w)
      | Some name \<Rightarrow>
          (case files w name of
             None \<Rightarrow> (Some (OSError ''file already closed''),
                      emit (WriteFile name n (Some (OSError ''file already closed''))) w)
           | Some len \<Rightarrow>
               (case writeErr d len of
                  Some e \<Rightarrow> (Some e, emit (WriteFile name n (Some e)) w)
                | None \<Rightarrow> (None, emit (WriteFile name n None)
                                   (w\<lparr>files := (files w)(name \<mapsto> len + n)\<rparr>)))))"

definition fileSync :: "dependencies \<Rightarrow> string option \<Rightarrow> world \<Rightarrow> error option \<times> world" where
  "fileSync d h w =
     (case h of
        None \<Rightarrow> (Some (OSError ''invalid argument''), w)
      | Some name \<Rightarrow> (syncErr d name, emit (SyncFile name (syncErr d name)) w))"

definition osRemove :: "dependencies \<Rightarrow> string \<Rightarrow> world \<Rightarrow> error option \<times> world" where
  "osRemove d name w =
     (case files w name of
        None \<Rightarrow> (Some (OSError ''no such file or directory''),
                 emit (RemoveFile name (Some (OSError ''no such file or directory''))) w)
      | Some len \<Rightarrow>
          (case removeErr d name of
             Some e \<Rightarrow> (Some e, emit (RemoveFile name (Some e)) w)
           | None \<Rightarrow> (None, emit (RemoveFile name None) (w\<lparr>files := (files w)(name := None)\<rparr>))))"

definition osOpenFile :: "dependencies \<Rightarrow> string \<Rightarrow> world \<Rightarrow> (string option \<times> error option) \<times> world" where
  "osOpenFile d name w =
     (case files w name of
        None \<Rightarrow> ((None, Some (OSError ''no such file or directory'')),
                 emit (OpenFile name (Some (OSError ''no such file or directory''))) w)
      | Some len \<Rightarrow>
          (case openErr d name of
             Some e \<Rightarrow> ((None, Some e), emit (OpenFile name (Some e)) w)
           | None \<Rightarrow> ((Some name, None), emit (OpenFile name None) w)))"

subsection \<open>findUnfinishedStorageFolderAdditions\<close>

text \<open>
  \<^verbatim>\<open>usfMap\<close> is a Go map from index to folder, here an association list with distinct
  keys: \<open>AList.update\<close> is the assignment \<^verbatim>\<open>usfMap[sf.Index] = sf\<close> and
  \<open>AList.delete\<close> is \<^verbatim>\<open>delete(usfMap, index)\<close>. The three inner loops of one state
  change run in the order of the source. The last loop ranges over the map and appends
  its folders to the result, in the order \<open>rangeOrder\<close> of the runtime.
\<close>

definition usfStep :: "stateChange \<Rightarrow> (uint16 \<times> storageFolder) list \<Rightarrow> (uint16 \<times> storageFolder) list" where
  "usfStep sc usfMap =
     fold (\<lambda>index m. AList.delete index m) (ErroredStorageFolderAdditions sc)
       (fold (\<lambda>sf m. AList.delete (Index sf) m) (StorageFolderAdditions sc)
          (fold (\<lambda>sf m. AList.update (Index sf) sf m) (UnfinishedStorageFolderAdditions sc) usfMap))"

definition findUnfinishedStorageFolderAdditions :: "dependencies \<Rightarrow> stateChange list \<Rightarrow> storageFolder list" where
  "findUnfinishedStorageFolderAdditions d scs = map snd (rangeOrder d (fold usfStep scs []))"

subsection \<open>managedAddStorageFolder\<close>

text \<open>
  The set \<^verbatim>\<open>uniqueFolders\<close>, a Go \<^verbatim>\<open>map[uint16]struct{}\<close>: the \<open>Index\<close> of every
  folder of the registry and of every unfinished addition of every uncommitted change.
  Its \<^verbatim>\<open>len\<close> is \<open>card\<close>.
\<close>

definition uniqueFolders :: "world \<Rightarrow> uint16 set" where
  "uniqueFolders w =
     set (map (Index \<circ> snd) (storageFolders w)) \<union>
     set (map Index (concat (map UnfinishedStorageFolderAdditions (uncommittedChanges w))))"

text \<open>
  The loop \<^verbatim>\<open>for iterator = 0; iterator < 65536; iterator++\<close> that looks for a free
  index; \<open>index + 1\<close> wraps around at 65536, as \<^verbatim>\<open>index++\<close> does on a \<^verbatim>\<open>uint16\<close>.
  It returns the final \<open>iterator\<close> and \<open>index\<close>.
\<close>

function probe :: "uint16 set \<Rightarrow> nat \<Rightarrow> uint16 \<Rightarrow> nat \<times> uint16" where
  "probe uf iterator index =
     (if iterator < 65536
      then (if index \<notin> uf then (iterator, index) else probe uf (iterator + 1) (index + 1))
      else (iterator, index))"
  by pat_completeness auto
termination
  by (relation "measure (\<lambda>(uf, iterator, index). 65536 - iterator)") auto

declare probe.simps [simp del]

text \<open>
  The first closure of \<^verbatim>\<open>managedAddStorageFolder\<close> (lines 66 to 163), run under the
  lock: the duplicate check, the count, the choice of the index, the creation of the
  file and the append of the pending record, whose result the source drops.
\<close>

definition managedAddStorageFolder_begin ::
  "constants \<Rightarrow> dependencies \<Rightarrow> uint64 \<Rightarrow> string \<Rightarrow> storageFolder \<Rightarrow> world \<Rightarrow> error option \<times> storageFolder \<times> world" where
  "managedAddStorageFolder_begin c d totalSize sectorHousingName sf w =
     (if Path sf \<in> set (map (Path \<circ> snd) (storageFolders w)) then (Some errRepeatFolder, sf, w)
      else if Path sf \<in> set (map Path (concat (map UnfinishedStorageFolderAdditions (uncommittedChanges w))))
      then (Some errRepeatFolder, sf, w)
      else if of_nat (card (uniqueFolders w)) > maximumStorageFolders c then (Some errMaxStorageFolders, sf, w)
      else
        let (rand, rerr) = RandIntn d 65536;
            w1 = (if rerr \<noteq> None
                  then emit (LogCritical ''no entropy for random iteration when adding a storage folder'') w
                  else w);
            (iterator, index) = probe (uniqueFolders w) 0 (word_of_int rand)
        in if iterator = 65536
           then (Some errMaxStorageFolders, sf,
                 emit (LogCritical ''Previous check indicated that there was room to add another storage folder, but folderLocations set is full.'') w1)
           else
             let sf1 = sf\<lparr>Index := index\<rparr>;
                 ((h, err), w2) = createFile d sectorHousingName w1;
                 sf2 = sf1\<lparr>file' := h\<rparr>
             in if err \<noteq> None
                then (ExtendErr ''could not create storage folder file'' err, sf2, w2)
                else
                  let sf3 = sf2\<lparr>atomicProgressDenominator := totalSize\<rparr>;
                      w3 = emit (Progress (atomicProgressNumerator sf3) (atomicProgressDenominator sf3)) w2;
                      (_, w4) = appendChange d
                                  \<lparr>UnfinishedStorageFolderAdditions = [sf3],
                                   StorageFolderAdditions = [],
                                   ErroredStorageFolderAdditions = []\<rparr> w3
                  in (None, sf3, w4))"

text \<open>
  The loop that writes the chunks of 4e6 zero bytes (lines 197 to 204), from the
  iteration \<open>i\<close> on. A failed write leaves the loop with the error; after every
  write that succeeds the numerator grows by 4e6.
\<close>

function managedAddStorageFolder_writeLoop ::
  "dependencies \<Rightarrow> uint64 \<Rightarrow> uint64 \<Rightarrow> storageFolder \<Rightarrow> world \<Rightarrow> error option \<times> storageFolder \<times> world" where
  "managedAddStorageFolder_writeLoop d writeCount i sf w =
     (if i < writeCount
      then (case fileWrite d (file' sf) 4000000 w of
              (Some e, w1) \<Rightarrow> (Some e, sf, w1)
            | (None, w1) \<Rightarrow>
                (let sf1 = sf\<lparr>atomicProgressNumerator := atomicProgressNumerator sf + 4000000\<rparr>;
                     w2 = emit (Progress (atomicProgressNumerator sf1) (atomicProgressDenominator sf1)) w1
                 in managedAddStorageFolder_writeLoop d writeCount (i + 1) sf1 w2))
      else (None, sf, w))"
  by pat_completeness auto
termination
proof (relation "measure (\<lambda>(d, writeCount, i, sf, w). unat writeCount - unat i)")
  show "wf (measure (\<lambda>(d, writeCount, i, sf, w). unat writeCount - unat i))"
    by simp
next
  fix d :: dependencies and writeCount i :: uint64 and sf sf1 :: storageFolder and w w2 :: world
  assume "i < writeCount"
  then have "unat writeCount - unat (i + 1) < unat writeCount - unat i"
    by unat_arith
  then show
    "((d, writeCount, i + 1, sf1, w2), (d, writeCount, i, sf, w))
       \<in> measure (\<lambda>(d, writeCount, i, sf, w). unat writeCount - unat i)"
    by simp
qed

declare managedAddStorageFolder_writeLoop.simps [simp del]

text \<open>
  The second closure (lines 229 to 248), run under the lock: both progress counters
  are stored as zero, the folder is put into the registry, the committed record is
  appended.
\<close>

definition managedAddStorageFolder_finish ::
  "dependencies \<Rightarrow> storageFolder \<Rightarrow> world \<Rightarrow> error option \<times> storageFolder \<times> world" where
  "managedAddStorageFolder_finish d sf w =
     (let sf1 = sf\<lparr>atomicProgressNumerator := 0\<rparr>;
          w1 = emit (Progress (atomicProgressNumerator sf1) (atomicProgressDenominator sf1)) w;
          sf2 = sf1\<lparr>atomicProgressDenominator := 0\<rparr>;
          w2 = emit (Progress (atomicProgressNumerator sf2) (atomicProgressDenominator sf2)) w1;
          w3 = w2\<lparr>storageFolders := AList.update (Index sf2) sf2 (storageFolders w2)\<rparr>;
          (err, w4) = appendChange d
                        \<lparr>UnfinishedStorageFolderAdditions = [],
                         StorageFolderAdditions = [sf2],
                         ErroredStorageFolderAdditions = []\<rparr> w3
      in if err \<noteq> None
         then (ExtendErr ''storage folder commitment assignment failed'' err, sf2, w4)
         else (None, sf2, w4))"

text \<open>
  The part of the function after the wait for the pending record (lines 189 to 256).
  It returns the value of the \<^verbatim>\<open>return\<close> statement that ends it, then the value the
  local variable \<^verbatim>\<open>err\<close> holds at that statement (the deferred function reads it),
  then the folder and the world.
\<close>

definition managedAddStorageFolder_allocate ::
  "dependencies \<Rightarrow> uint64 \<Rightarrow> storageFolder \<Rightarrow> world \<Rightarrow> error option \<times> error option \<times> storageFolder \<times> world" where
  "managedAddStorageFolder_allocate d totalSize sf w =
     (let writeCount = totalSize div 4000000;
          finalWriteSize = totalSize mod 4000000;
          (err, sf1, w1) = managedAddStorageFolder_writeLoop d writeCount 0 sf w
      in if err \<noteq> None then (ExtendErr ''could not allocate storage folder'' err, err, sf1, w1)
         else
           let (err, w2) = fileWrite d (file' sf1) (unat finalWriteSize) w1
           in if err \<noteq> None then (ExtendErr ''could not allocate storage folder'' err, err, sf1, w2)
              else
                let (err, w3) = fileSync d (file' sf1) w2
                in if err \<noteq> None
                   then (ExtendErr ''could not syncronize allocated storage folder'' err, err, sf1, w3)
                   else
                     let sf2 = sf1\<lparr>atomicProgressDenominator := totalSize\<rparr>;
                         w4 = emit (Progress (atomicProgressNumerator sf2) (atomicProgressDenominator sf2)) w3
                     in if disrupt d ''incompleteAddStorageFolder'' then (None, None, sf2, w4)
                        else
                          let (err, sf3, w5) = managedAddStorageFolder_finish d sf2 w4
                          in if err \<noteq> None then (err, err, sf3, w5) else (None, None, sf3, w5))"

text \<open>
  The deferred function (lines 176 to 187). It reads the local variable \<^verbatim>\<open>err\<close> and
  assigns to it; it returns the final value of that variable and the world.
\<close>

definition managedAddStorageFolder_deferred ::
  "dependencies \<Rightarrow> string \<Rightarrow> error option \<Rightarrow> storageFolder \<Rightarrow> world \<Rightarrow> error option \<times> world" where
  "managedAddStorageFolder_deferred d sectorHousingName err sf w =
     (if err \<noteq> None
      then
        let (aerr, w1) = appendChange d
                           \<lparr>UnfinishedStorageFolderAdditions = [],
                            StorageFolderAdditions = [],
                            ErroredStorageFolderAdditions = [Index sf]\<rparr> w;
            err1 = ComposeErrors [err, aerr];
            (rerr, w2) = osRemove d sectorHousingName w1;
            err2 = ComposeErrors [err1, rerr]
        in (err2, w2)
      else (err, w))"

text \<open>
  \<^verbatim>\<open>managedAddStorageFolder\<close>. The function's result is declared as an unnamed
  \<^verbatim>\<open>error\<close>, so a \<^verbatim>\<open>return\<close> statement fixes the result before the deferred
  function runs, and what the deferred function assigns to the local \<^verbatim>\<open>err\<close> is not
  returned: the model returns \<open>ret\<close>, and the world the deferred function leaves.
  The folder is passed by pointer in Go; the model returns it as it is at the end.
\<close>

definition managedAddStorageFolder ::
  "constants \<Rightarrow> dependencies \<Rightarrow> storageFolder \<Rightarrow> world \<Rightarrow> error option \<times> storageFolder \<times> world" where
  "managedAddStorageFolder c d sf w =
     (let numSectors = (of_nat (length (Usage sf)) :: uint64) * 64;
          sectorLookupSize = numSectors * sectorMetadataDiskSize c;
          sectorHousingSize = numSectors * SectorSize c;
          totalSize = sectorLookupSize + sectorHousingSize;
          sectorHousingName = filepathJoin d (Path sf) (sectorFile c);
          (err, sf1, w1) = managedAddStorageFolder_begin c d totalSize sectorHousingName sf w
      in if err \<noteq> None then (err, sf1, w1)
         else
           let (ret, err, sf2, w2) = managedAddStorageFolder_allocate d totalSize sf1 w1;
               (err', w3) = managedAddStorageFolder_deferred d sectorHousingName err sf2 w2
           in (ret, sf2, w3))"

subsection \<open>Recovery\<close>

text \<open>
  The loop of \<^verbatim>\<open>cleanupUnfinishedStorageFolderAdditions\<close> over the unfinished folders
  (lines 267 to 286), and the function itself.
\<close>

fun cleanupLoop :: "constants \<Rightarrow> dependencies \<Rightarrow> storageFolder list \<Rightarrow> world \<Rightarrow> error option \<times> world" where
  "cleanupLoop c d [] w = (None, w)"
| "cleanupLoop c d (sf # sfs) w =
     (let sectorHousingName = filepathJoin d (Path sf) (sectorFile c);
          (err, w1) = osRemove d sectorHousingName w;
          w2 = (if err \<noteq> None
                then emit (LogPrintln [Str ''Unable to remove documented sector housing:'',
                                       Str sectorHousingName, Err err]) w1
                else w1);
          (err, w3) = appendChange d
                        \<lparr>UnfinishedStorageFolderAdditions = [],
                         StorageFolderAdditions = [],
                         ErroredStorageFolderAdditions = [Index sf]\<rparr> w2
      in if err \<noteq> None
         then (ExtendErr ''unable to close out unfinished storage folder addition'' err, w3)
         else cleanupLoop c d sfs w3)"

definition cleanupUnfinishedStorageFolderAdditions ::
  "constants \<Rightarrow> dependencies \<Rightarrow> stateChange list \<Rightarrow> world \<Rightarrow> error option \<times> world" where
  "cleanupUnfinishedStorageFolderAdditions c d scs w =
     cleanupLoop c d (findUnfinishedStorageFolderAdditions d scs) w"

text \<open>
  \<^verbatim>\<open>commitAddStorageFolder\<close> has no result in Go; the model returns the world, whose
  registry holds the folder as the function leaves it.
\<close>

definition commitAddStorageFolder :: "constants \<Rightarrow> dependencies \<Rightarrow> storageFolder \<Rightarrow> world \<Rightarrow> world" where
  "commitAddStorageFolder c d sf w =
     (let ((h, err), w1) = osOpenFile d (filepathJoin d (Path sf) (sectorFile c)) w;
          sf1 = sf\<lparr>file' := h\<rparr>;
          (sf2, w2) = (if err \<noteq> None
                       then (sf1\<lparr>failedReads := failedReads sf1 + 1\<rparr>,
                             emit (LogPrintln [Str ''Difficulties opening storage folder:'', Err err]) w1)
                       else (sf1, w1))
      in w2\<lparr>storageFolders := AList.update (Index sf2) sf2 (storageFolders w2)\<rparr>)"

subsection \<open>AddStorageFolder\<close>

text \<open>
  The public entry. \<^verbatim>\<open>make([]uint64, n)\<close> is a list of \<open>n\<close> zero words; the other
  fields of the new folder have Go's zero values.
\<close>

definition AddStorageFolder ::
  "constants \<Rightarrow> dependencies \<Rightarrow> string \<Rightarrow> uint64 \<Rightarrow> world \<Rightarrow> error option \<times> world" where
  "AddStorageFolder c d path size' w =
     (case tgAdd d of
        Some e \<Rightarrow> (Some e, w)
      | None \<Rightarrow>
          let sectors = size' div SectorSize c
          in if sectors > maximumSectorsPerStorageFolder c then (Some errLargeStorageFolder, w)
             else if sectors < minimumSectorsPerStorageFolder c then (Some errSmallStorageFolder, w)
             else if (size' div SectorSize c) mod storageFolderGranularity c \<noteq> 0
             then (Some errStorageFolderGranularity, w)
             else if \<not> filepathIsAbs d path then (Some errRelativePath, w)
             else
               (case osStat d path of
                  Inl e \<Rightarrow> (Some e, w)
                | Inr isDir \<Rightarrow>
                    if \<not> isDir then (Some errStorageFolderNotFolder, w)
                    else
                      let newSF = \<lparr>Index = 0, Path = path,
                                   Usage = replicate (unat (size' div SectorSize c div 64)) 0,
                                   file' = None,
                                   atomicProgressNumerator = 0,
                                   atomicProgressDenominator = 0,
                                   failedReads = 0\<rparr>;
                          (err, sf, w1) = managedAddStorageFolder c d newSF w
                      in if err \<noteq> None
                         then (err, emit (LogPrintln [Str ''Call to AddStorageFolder has failed:'', Err err]) w1)
                         else (None, w1)))"

subsection \<open>Reading the trace\<close>

text \<open>
  The records the run tried to append to the log (with or without success), the files
  it tried to remove, and the values of the two progress counters after every atomic
  operation on them.
\<close>

fun appendsOf :: "event list \<Rightarrow> stateChange list" where
  "appendsOf [] = []"
| "appendsOf (AppendChange sc r # evs) = sc # appendsOf evs"
| "appendsOf (ev # evs) = appendsOf evs"

fun removesOf :: "event list \<Rightarrow> string list" where
  "removesOf [] = []"
| "removesOf (RemoveFile name r # evs) = name # removesOf evs"
| "removesOf (ev # evs) = removesOf evs"

fun progressOf :: "event list \<Rightarrow> (uint64 \<times> uint64) list" where
  "progressOf [] = []"
| "progressOf (Progress n m # evs) = (n, m) # progressOf evs"
| "progressOf (ev # evs) = progressOf evs"

text \<open>
  The indices that a state change names as committed or as errored: the keys that the
  second and the third inner loop of \<^verbatim>\<open>findUnfinishedStorageFolderAdditions\<close> delete.
\<close>

definition finishedIndices :: "stateChange \<Rightarrow> uint16 list" where
  "finishedIndices sc = map Index (StorageFolderAdditions sc) @ ErroredStorageFolderAdditions sc"

text \<open>
  The result of \<^verbatim>\<open>findUnfinishedStorageFolderAdditions\<close> as the specification words
  it: the pending additions whose index no later record names as committed or as
  errored.
\<close>

fun specUnfinished :: "stateChange list \<Rightarrow> storageFolder list" where
  "specUnfinished [] = []"
| "specUnfinished (sc # scs) =
     filter (\<lambda>sf. Index sf \<notin> set (concat (map finishedIndices scs)))
            (UnfinishedStorageFolderAdditions sc)
     @ specUnfinished scs"

text \<open>
  The three records that the file appends: a pending addition, a committed addition
  and an errored addition.
\<close>

definition pendingRecord :: "storageFolder \<Rightarrow> stateChange" where
  "pendingRecord sf =
     \<lparr>UnfinishedStorageFolderAdditions = [sf], StorageFolderAdditions = [],
      ErroredStorageFolderAdditions = []\<rparr>"

definition committedRecord :: "storageFolder \<Rightarrow> stateChange" where
  "committedRecord sf =
     \<lparr>UnfinishedStorageFolderAdditions = [], StorageFolderAdditions = [sf],
      ErroredStorageFolderAdditions = []\<rparr>"

definition erroredRecord :: "uint16 \<Rightarrow> stateChange" where
  "erroredRecord i =
     \<lparr>UnfinishedStorageFolderAdditions = [], StorageFolderAdditions = [],
      ErroredStorageFolderAdditions = [i]\<rparr>"

subsection \<open>Concrete inputs\<close>

text \<open>
  Constants with a sector of 4096 bytes and at most 8 storage folders; an outside where
  every operation succeeds, the random source returns 5, paths are Unix paths and a map
  is ranged over in the order of its association list.
\<close>

definition exConstants :: constants where
  "exConstants =
     \<lparr>SectorSize = 4096, sectorMetadataDiskSize = 14,
      maximumSectorsPerStorageFolder = 4096, minimumSectorsPerStorageFolder = 64,
      storageFolderGranularity = 64, maximumStorageFolders = 8,
      sectorFile = ''siahostdata.dat''\<rparr>"

definition exDeps :: dependencies where
  "exDeps =
     \<lparr>tgAdd = None,
      filepathIsAbs = (\<lambda>p. take 1 p = ''/''),
      filepathJoin = (\<lambda>a b. a @ ''/'' @ b),
      osStat = (\<lambda>p. Inr True),
      RandIntn = (\<lambda>n. (5, None)),
      disrupt = (\<lambda>s. False),
      createErr = (\<lambda>name. None),
      writeErr = (\<lambda>len. None),
      syncErr = (\<lambda>name. None),
      removeErr = (\<lambda>name. None),
      openErr = (\<lambda>name. None),
      appendErr = (\<lambda>sc. None),
      rangeOrder = (\<lambda>m. m)\<rparr>"

definition exFolder :: "uint16 \<Rightarrow> string \<Rightarrow> storageFolder" where
  "exFolder i p =
     \<lparr>Index = i, Path = p, Usage = [0], file' = Some (p @ ''/siahostdata.dat''),
      atomicProgressNumerator = 0, atomicProgressDenominator = 0, failedReads = 0\<rparr>"


definition emptyWorld :: world where
  "emptyWorld = \<lparr>storageFolders = [], uncommittedChanges = [], files = Map.empty, events = []\<rparr>"

text \<open>
  A world with the folder 5 at \<^verbatim>\<open>/mnt/a\<close> in the registry and a pending addition of the
  folder 6 at \<^verbatim>\<open>/mnt/b\<close> in the uncommitted changes.
\<close>

definition exWorld :: world where
  "exWorld =
     \<lparr>storageFolders = [(5, exFolder 5 ''/mnt/a'')],
      uncommittedChanges = [pendingRecord (exFolder 6 ''/mnt/b'')],
      files = [''/mnt/a/siahostdata.dat'' \<mapsto> 263040, ''/mnt/b/siahostdata.dat'' \<mapsto> 0],
      events = []\<rparr>"

text \<open>
  A new folder as \<^verbatim>\<open>AddStorageFolder\<close> builds it for 64 sectors at \<^verbatim>\<open>/mnt/c\<close>.
\<close>

definition exNewFolder :: storageFolder where
  "exNewFolder =
     \<lparr>Index = 0, Path = ''/mnt/c'', Usage = [0], file' = None,
      atomicProgressNumerator = 0, atomicProgressDenominator = 0, failedReads = 0\<rparr>"

text \<open>
  Variants of the outside: the fault-injection hook fires; no file can be created;
  every write fails, and so do the append of an errored record and the removal of a
  file; the append of the errored record of folder 2 fails.
\<close>

definition exDisruptDeps :: dependencies where
  "exDisruptDeps = exDeps\<lparr>disrupt := (\<lambda>s. s = ''incompleteAddStorageFolder'')\<rparr>"

definition exNoCreateDeps :: dependencies where
  "exNoCreateDeps = exDeps\<lparr>createErr := (\<lambda>name. Some (OSError ''permission denied''))\<rparr>"

definition exFailDeps :: dependencies where
  "exFailDeps =
     exDeps\<lparr>writeErr := (\<lambda>len. Some (OSError ''no space left on device'')),
            removeErr := (\<lambda>name. Some (OSError ''permission denied'')),
            appendErr := (\<lambda>sc. if ErroredStorageFolderAdditions sc = [] then None
                                else Some (OSError ''log write failed''))\<rparr>"

definition exAppendFailDeps :: dependencies where
  "exAppendFailDeps =
     exDeps\<lparr>appendErr := (\<lambda>sc. if ErroredStorageFolderAdditions sc = [2]
                                then Some (OSError ''log write failed'') else None)\<rparr>"

text \<open>
  A registry with eight folders, as many as \<open>exConstants\<close> allows; a world with
  three backing files; three logs.
\<close>

definition exFullWorld :: world where
  "exFullWorld =
     \<lparr>storageFolders =
        [(0, exFolder 0 ''/mnt/d0''), (1, exFolder 1 ''/mnt/d1''), (2, exFolder 2 ''/mnt/d2''),
         (3, exFolder 3 ''/mnt/d3''), (4, exFolder 4 ''/mnt/d4''), (5, exFolder 5 ''/mnt/d5''),
         (6, exFolder 6 ''/mnt/d6''), (7, exFolder 7 ''/mnt/d7'')],
      uncommittedChanges = [], files = Map.empty, events = []\<rparr>"

definition exCleanupWorld :: world where
  "exCleanupWorld =
     \<lparr>storageFolders = [], uncommittedChanges = [],
      files = [''/mnt/a/siahostdata.dat'' \<mapsto> 100, ''/mnt/b/siahostdata.dat'' \<mapsto> 200,
               ''/mnt/c/siahostdata.dat'' \<mapsto> 300],
      events = []\<rparr>"

definition exLogSameIndex :: "stateChange list" where
  "exLogSameIndex = [pendingRecord (exFolder 1 ''/mnt/a''), pendingRecord (exFolder 1 ''/mnt/b'')]"

definition exLogErrored :: "stateChange list" where
  "exLogErrored =
     [pendingRecord (exFolder 1 ''/mnt/a''), pendingRecord (exFolder 2 ''/mnt/b''), erroredRecord 1]"

definition exLogThree :: "stateChange list" where
  "exLogThree =
     [pendingRecord (exFolder 1 ''/mnt/a''), pendingRecord (exFolder 2 ''/mnt/b''),
      pendingRecord (exFolder 3 ''/mnt/c'')]"

section \<open>Theorems\<close>

subsection \<open>The collaborators and the trace\<close>

lemma emit_fields [simp]:
  "storageFolders (emit ev w) = storageFolders w"
  "uncommittedChanges (emit ev w) = uncommittedChanges w"
  "files (emit ev w) = files w"
  "events (emit ev w) = events w @ [ev]"
  by (simp_all add: emit_def)

lemma uniqueFolders_emit [simp]: "uniqueFolders (emit ev w) = uniqueFolders w"
  by (simp add: uniqueFolders_def)

lemma appendsOf_append [simp]: "appendsOf (xs @ ys) = appendsOf xs @ appendsOf ys"
  by (induction xs rule: appendsOf.induct) simp_all

lemma progressOf_append [simp]: "progressOf (xs @ ys) = progressOf xs @ progressOf ys"
  by (induction xs rule: progressOf.induct) simp_all

lemma appendChange_result:
  "fst (appendChange d sc w) = appendErr d sc"
  "storageFolders (snd (appendChange d sc w)) = storageFolders w"
  "files (snd (appendChange d sc w)) = files w"
  "uncommittedChanges (snd (appendChange d sc w)) =
     uncommittedChanges w @ (if appendErr d sc = None then [sc] else [])"
  "events (snd (appendChange d sc w)) = events w @ [AppendChange sc (appendErr d sc)]"
  by (simp_all add: appendChange_def split: option.splits)

lemma removesOf_append [simp]: "removesOf (xs @ ys) = removesOf xs @ removesOf ys"
  by (induction xs rule: removesOf.induct) simp_all

text \<open>The definitions that a run on a concrete input unfolds.\<close>

lemmas run_defs =
  AddStorageFolder_def managedAddStorageFolder_def managedAddStorageFolder_begin_def
  managedAddStorageFolder_allocate_def managedAddStorageFolder_finish_def
  managedAddStorageFolder_deferred_def managedAddStorageFolder_writeLoop.simps
  uniqueFolders_def probe.simps createFile_def fileWrite_def fileSync_def osRemove_def
  appendChange_def emit_def ComposeErrors_def List.map_filter_def Let_def

lemmas ex_defs =
  exConstants_def exDeps_def exWorld_def emptyWorld_def exFolder_def
  pendingRecord_def committedRecord_def erroredRecord_def

lemmas find_defs = findUnfinishedStorageFolderAdditions_def usfStep_def finishedIndices_def

lemma uniqueFolders_exWorld: "uniqueFolders exWorld = {5, 6}"
  by (auto simp: uniqueFolders_def exWorld_def exFolder_def pendingRecord_def)

lemma exWorld_room:
  "card (uniqueFolders exWorld) \<le> unat (maximumStorageFolders exConstants)"
  "uniqueFolders exWorld \<noteq> UNIV"
proof -
  show "card (uniqueFolders exWorld) \<le> unat (maximumStorageFolders exConstants)"
    by (simp add: uniqueFolders_exWorld exConstants_def)
  have "(0 :: uint16) \<notin> uniqueFolders exWorld"
    by (simp add: uniqueFolders_exWorld)
  then show "uniqueFolders exWorld \<noteq> UNIV" by blast
qed

lemma exWorld_nodup:
  "Path exNewFolder \<notin> Path ` snd ` set (storageFolders exWorld)"
  "Path exNewFolder \<notin> Path ` (\<Union>uc \<in> set (uncommittedChanges exWorld). set (UnfinishedStorageFolderAdditions uc))"
  by (simp_all add: exNewFolder_def exWorld_def exFolder_def pendingRecord_def)

subsection \<open>Duplicate paths\<close>

text \<open>
  C5. When the path of the folder is the path of a folder of the registry, or of an
  unfinished addition of an uncommitted change, \<^verbatim>\<open>managedAddStorageFolder\<close> returns
  \<^verbatim>\<open>errRepeatFolder\<close> and leaves the folder and the whole world as they were: the
  registry, the uncommitted changes and the files are the same, and the trace has no
  new entry, so no record was appended and no file was created.
\<close>

theorem duplicate_path_rejected:
  assumes "(\<exists>csf \<in> snd ` set (storageFolders w). Path sf = Path csf) \<or>
           (\<exists>uc \<in> set (uncommittedChanges w).
              \<exists>usfa \<in> set (UnfinishedStorageFolderAdditions uc). Path usfa = Path sf)"
  shows "managedAddStorageFolder c d sf w = (Some errRepeatFolder, sf, w)"
proof -
  have dup: "Path sf \<in> set (map (Path \<circ> snd) (storageFolders w)) \<or>
             Path sf \<in> set (map Path (concat (map UnfinishedStorageFolderAdditions (uncommittedChanges w))))"
    using assms by (auto simp: image_iff) force
  have "managedAddStorageFolder_begin c d t n sf w = (Some errRepeatFolder, sf, w)" for t n
    using dup unfolding managedAddStorageFolder_begin_def by (simp only: if_True split: if_splits) auto
  then show ?thesis
    by (simp add: managedAddStorageFolder_def Let_def)
qed

theorem duplicate_path_rejected_witness:
  "(\<exists>uc \<in> set (uncommittedChanges exWorld).
      \<exists>usfa \<in> set (UnfinishedStorageFolderAdditions uc). Path usfa = Path (exFolder 0 ''/mnt/b''))
   \<and> managedAddStorageFolder exConstants exDeps (exFolder 0 ''/mnt/b'') exWorld
       = (Some errRepeatFolder, exFolder 0 ''/mnt/b'', exWorld)"
proof -
  have h: "\<exists>uc \<in> set (uncommittedChanges exWorld).
      \<exists>usfa \<in> set (UnfinishedStorageFolderAdditions uc). Path usfa = Path (exFolder 0 ''/mnt/b'')"
    by (simp add: exWorld_def pendingRecord_def exFolder_def)
  then show ?thesis
    using duplicate_path_rejected [of exWorld "exFolder 0 ''/mnt/b''" exConstants exDeps]
    by blast
qed

subsection \<open>Recovery of a committed addition\<close>

text \<open>
  C8. When the backing file of the folder cannot be reopened (it does not exist, or
  the open fails), \<^verbatim>\<open>commitAddStorageFolder\<close> writes the failure to the log, adds one to
  \<open>failedReads\<close>, and still puts the folder into the registry at its index. The
  function has no error result, so it cannot abort the caller.
\<close>

theorem commit_reopen_failure:
  assumes "files w (filepathJoin d (Path sf) (sectorFile c)) = None \<or>
           openErr d (filepathJoin d (Path sf) (sectorFile c)) \<noteq> None"
  shows "\<exists>e. storageFolders (commitAddStorageFolder c d sf w) =
               AList.update (Index sf) (sf\<lparr>file' := None, failedReads := failedReads sf + 1\<rparr>) (storageFolders w)
         \<and> map_of (storageFolders (commitAddStorageFolder c d sf w)) (Index sf) =
               Some (sf\<lparr>file' := None, failedReads := failedReads sf + 1\<rparr>)
         \<and> events (commitAddStorageFolder c d sf w) =
               events w @ [OpenFile (filepathJoin d (Path sf) (sectorFile c)) (Some e),
                           LogPrintln [Str ''Difficulties opening storage folder:'', Err (Some e)]]
         \<and> uncommittedChanges (commitAddStorageFolder c d sf w) = uncommittedChanges w
         \<and> files (commitAddStorageFolder c d sf w) = files w"
  using assms
  by (auto simp: commitAddStorageFolder_def osOpenFile_def emit_def Let_def update_conv'
           split: option.splits)

theorem commit_reopen_failure_witness:
  "files emptyWorld (filepathJoin exDeps (Path (exFolder 3 ''/mnt/c'')) (sectorFile exConstants)) = None
   \<and> map_of (storageFolders (commitAddStorageFolder exConstants exDeps (exFolder 3 ''/mnt/c'') emptyWorld)) 3
       = Some ((exFolder 3 ''/mnt/c'')\<lparr>file' := None, failedReads := 1\<rparr>)"
proof -
  have h: "files emptyWorld (filepathJoin exDeps (Path (exFolder 3 ''/mnt/c'')) (sectorFile exConstants)) = None"
    by (simp add: emptyWorld_def)
  from commit_reopen_failure [OF disjI1 [OF h]] h show ?thesis
    by (auto simp: exFolder_def)
qed

subsection \<open>The choice of the index\<close>

lemma probe_spec:
  "probe uf i idx = (it, idx') \<Longrightarrow> i \<le> 65536 \<Longrightarrow>
     i \<le> it \<and> it \<le> 65536 \<and> idx' = idx + of_nat (it - i)
     \<and> (\<forall>k < it - i. idx + of_nat k \<in> uf) \<and> (it < 65536 \<longrightarrow> idx' \<notin> uf)"
proof (induction uf i idx arbitrary: it idx' rule: probe.induct)
  case (1 uf iterator index)
  show ?case
  proof (cases "iterator < 65536 \<and> index \<in> uf")
    case True
    then have rec: "probe uf (iterator + 1) (index + 1) = (it, idx')"
      using "1.prems"(1) by (simp add: probe.simps [of uf iterator index])
    from True have le: "iterator + 1 \<le> 65536" by simp
    from True have "iterator < 65536" "\<not> index \<notin> uf" by simp_all
    from "1.IH" [OF this rec le]
    have ih0: "iterator + 1 \<le> it \<and> it \<le> 65536 \<and> idx' = index + 1 + of_nat (it - (iterator + 1))
      \<and> (\<forall>k < it - (iterator + 1). index + 1 + of_nat k \<in> uf) \<and> (it < 65536 \<longrightarrow> idx' \<notin> uf)" .
    then have ih: "iterator + 1 \<le> it" "it \<le> 65536" "idx' = index + 1 + of_nat (it - (iterator + 1))"
      "\<forall>k < it - (iterator + 1). index + 1 + of_nat k \<in> uf" "it < 65536 \<longrightarrow> idx' \<notin> uf"
      by blast+
    have eq: "idx' = index + of_nat (it - iterator)"
    proof -
      from ih(1) have "it - iterator = Suc (it - (iterator + 1))" by simp
      then show ?thesis using ih(3) by simp
    qed
    have all: "index + of_nat k \<in> uf" if "k < it - iterator" for k
    proof (cases k)
      case 0
      then show ?thesis using True by simp
    next
      case (Suc j)
      with that have "j < it - (iterator + 1)" by simp
      with ih(4) have "index + 1 + of_nat j \<in> uf" by blast
      then show ?thesis using Suc by (simp add: add.assoc)
    qed
    from ih(1) have "iterator \<le> it" by simp
    with ih(2) ih(5) eq all show ?thesis by blast
  next
    case False
    then show ?thesis
      using "1.prems" by (auto simp: probe.simps [of uf iterator index] split: if_splits)
  qed
qed

lemma probe_exhausted:
  assumes "probe uf 0 start = (65536, idx')"
  shows "uf = (UNIV :: uint16 set)"
proof -
  from probe_spec [OF assms] have all: "\<forall>k < 65536. start + of_nat k \<in> uf"
    by simp
  have "x \<in> uf" for x :: uint16
  proof -
    have "unat (x - start) < 65536"
      using unsigned_less [of "x - start", where 'a = nat] by simp
    with all have "start + of_nat (unat (x - start)) \<in> uf" by blast
    then show ?thesis by simp
  qed
  then show ?thesis by blast
qed

lemma probe_free:
  assumes "uf \<noteq> (UNIV :: uint16 set)"
  shows "fst (probe uf 0 start) < 65536 \<and> snd (probe uf 0 start) \<notin> uf
         \<and> snd (probe uf 0 start) = start + of_nat (fst (probe uf 0 start))
         \<and> (\<forall>k < fst (probe uf 0 start). start + of_nat k \<in> uf)"
proof -
  obtain it idx' where p: "probe uf 0 start = (it, idx')" by (cases "probe uf 0 start")
  have le0: "(0::nat) \<le> 65536" by simp
  note s0 = probe_spec [OF p le0]
  from s0 have s: "it \<le> 65536" "idx' = start + of_nat (it - 0)"
    "\<forall>k < it - 0. start + of_nat k \<in> uf" "it < 65536 \<longrightarrow> idx' \<notin> uf"
    by blast+
  have "it \<noteq> 65536"
    using probe_exhausted p assms by blast
  with s(1) have lt: "it < 65536" by simp
  with s(4) have "idx' \<notin> uf" by blast
  with lt s(2) s(3) p show ?thesis by simp
qed

lemma probe_UNIV: "uf = UNIV \<Longrightarrow> i \<le> 65536 \<Longrightarrow> fst (probe uf i idx) = 65536"
proof (induction uf i idx rule: probe.induct)
  case (1 uf iterator index)
  show ?case
  proof (cases "iterator < 65536")
    case True
    with "1.prems" have "\<not> index \<notin> uf" "iterator + 1 \<le> 65536" by simp_all
    with "1.IH" True "1.prems" have "fst (probe uf (iterator + 1) (index + 1)) = 65536" by blast
    with True "1.prems" show ?thesis by (subst probe.simps) simp
  next
    case False
    with "1.prems" show ?thesis by (subst probe.simps) simp
  qed
qed

lemma card_uint16_le: "card (A :: uint16 set) \<le> 65536"
proof -
  have "card A \<le> card (UNIV :: uint16 set)" by (rule card_mono) simp_all
  then show ?thesis by (simp add: card_word)
qed

lemma capacity_check:
  "(maximumStorageFolders c < of_nat (card (uniqueFolders w))) \<longleftrightarrow>
   unat (maximumStorageFolders c) < card (uniqueFolders w)"
proof -
  have "card (uniqueFolders w) < 2 ^ 64"
    using card_uint16_le [of "uniqueFolders w"] by simp
  then have "unat (of_nat (card (uniqueFolders w)) :: uint64) = card (uniqueFolders w)"
    by (simp add: unat_of_nat)
  then show ?thesis by (simp add: word_less_nat_alt)
qed

lemma nodup_forms:
  "Path sf \<notin> set (map (Path \<circ> snd) (storageFolders w)) \<longleftrightarrow> Path sf \<notin> Path ` snd ` set (storageFolders w)"
  "Path sf \<notin> set (map Path (concat (map UnfinishedStorageFolderAdditions (uncommittedChanges w)))) \<longleftrightarrow>
   Path sf \<notin> Path ` (\<Union>uc \<in> set (uncommittedChanges w). set (UnfinishedStorageFolderAdditions uc))"
  by (auto simp: image_iff)

text \<open>
  C6. After the duplicate check and the count have passed, the first closure starts at
  the index \<^verbatim>\<open>uint16(rand)\<close>, where \<^verbatim>\<open>rand\<close> is what \<^verbatim>\<open>crypto.RandIntn(65536)\<close>
  returned, and goes up from there, wrapping around. If some index is free, the index
  of the folder becomes the first free one in that order, \<open>start + k\<close> with every
  \<open>start + j\<close> for \<open>j < k\<close> in use: it is the index of no folder of the registry
  and of no unfinished addition of the uncommitted changes, and the critical message of
  the full index space is not logged. If all 65536 indices are in use, the closure logs
  that critical message and returns \<^verbatim>\<open>errMaxStorageFolders\<close>, with no file created and
  no record appended. That the start is uniformly distributed is a property of the
  random source, which the model takes as given.
\<close>

theorem index_assignment:
  fixes c :: constants and d :: dependencies and sf :: storageFolder and w :: world
    and tot :: uint64 and name :: string
  defines "start \<equiv> (word_of_int (fst (RandIntn d 65536)) :: uint16)"
  assumes nodup1: "Path sf \<notin> Path ` snd ` set (storageFolders w)"
    and nodup2: "Path sf \<notin> Path ` (\<Union>uc \<in> set (uncommittedChanges w). set (UnfinishedStorageFolderAdditions uc))"
    and cap: "card (uniqueFolders w) \<le> unat (maximumStorageFolders c)"
  shows "\<exists>err sf' w' evs.
           managedAddStorageFolder_begin c d tot name sf w = (err, sf', w')
         \<and> events w' = events w @ evs
         \<and> (if uniqueFolders w = UNIV
            then err = Some errMaxStorageFolders \<and> sf' = sf
               \<and> LogCritical ''Previous check indicated that there was room to add another storage folder, but folderLocations set is full.'' \<in> set evs
               \<and> files w' = files w \<and> uncommittedChanges w' = uncommittedChanges w
            else LogCritical ''Previous check indicated that there was room to add another storage folder, but folderLocations set is full.'' \<notin> set evs
               \<and> Index sf' \<notin> Index ` snd ` set (storageFolders w)
               \<and> Index sf' \<notin> Index ` (\<Union>uc \<in> set (uncommittedChanges w). set (UnfinishedStorageFolderAdditions uc))
               \<and> (\<exists>k < 65536. Index sf' = start + of_nat k \<and> (\<forall>j < k. start + of_nat j \<in> uniqueFolders w)))"
proof -
  have cap': "\<not> maximumStorageFolders c < of_nat (card (uniqueFolders w))"
    using cap by (simp add: capacity_check)
  note n1 = nodup1 [folded nodup_forms] and n2 = nodup2 [folded nodup_forms]
  obtain r rerr where rnd: "RandIntn d 65536 = (r, rerr)" by (cases "RandIntn d 65536")
  then have start: "start = word_of_int r" by (simp add: start_def)
  obtain it idx where p: "probe (uniqueFolders w) 0 (word_of_int r) = (it, idx)"
    by (cases "probe (uniqueFolders w) 0 (word_of_int r)")
  show ?thesis
  proof (cases "uniqueFolders w = UNIV")
    case True
    with probe_UNIV [of "uniqueFolders w" 0 "word_of_int r"] p have it: "it = 65536" by simp
    note p' = p [unfolded it True]
    show ?thesis
      using n1 n2 cap' True
      unfolding managedAddStorageFolder_begin_def
      by (cases rerr) (simp_all add: rnd p' Let_def)
  next
    case False
    note pf = probe_free [OF False, of "word_of_int r", unfolded p fst_conv snd_conv, folded start]
    then have it: "it < 65536" and fresh: "idx \<notin> uniqueFolders w"
      and idx: "idx = start + of_nat it" and before: "\<forall>k < it. start + of_nat k \<in> uniqueFolders w"
      by blast+
    from fresh have f1: "idx \<notin> Index ` snd ` set (storageFolders w)"
      and f2: "idx \<notin> Index ` (\<Union>uc \<in> set (uncommittedChanges w). set (UnfinishedStorageFolderAdditions uc))"
      by (auto simp: uniqueFolders_def image_iff)
    from it idx before have ex: "\<exists>k < 65536. idx = start + of_nat k \<and> (\<forall>j < k. start + of_nat j \<in> uniqueFolders w)"
      by blast
    from it have ne: "it \<noteq> 65536" by simp
    show ?thesis
      using n1 n2 cap' False ne f1 f2 ex
      unfolding managedAddStorageFolder_begin_def
      by (cases rerr; cases "createErr d name")
         (simp_all add: rnd p Let_def createFile_def appendChange_def emit_def split: option.splits)
  qed
qed

theorem index_assignment_witness:
  "uniqueFolders exWorld \<noteq> UNIV
   \<and> Index (fst (snd (managedAddStorageFolder_begin exConstants exDeps 263040 ''/mnt/c/siahostdata.dat''
                         exNewFolder exWorld)))
       \<notin> Index ` snd ` set (storageFolders exWorld)
   \<and> Index (fst (snd (managedAddStorageFolder_begin exConstants exDeps 263040 ''/mnt/c/siahostdata.dat''
                         exNewFolder exWorld)))
       \<notin> Index ` (\<Union>uc \<in> set (uncommittedChanges exWorld). set (UnfinishedStorageFolderAdditions uc))"
proof -
  let ?full = "LogCritical ''Previous check indicated that there was room to add another storage folder, but folderLocations set is full.''"
  from index_assignment [OF exWorld_nodup exWorld_room(1), of exDeps 263040 "''/mnt/c/siahostdata.dat''"]
  obtain err sf' w' evs where
    r: "managedAddStorageFolder_begin exConstants exDeps 263040 ''/mnt/c/siahostdata.dat'' exNewFolder exWorld
          = (err, sf', w')"
    and c: "if uniqueFolders exWorld = UNIV
            then err = Some errMaxStorageFolders \<and> sf' = exNewFolder \<and> ?full \<in> set evs
               \<and> files w' = files exWorld \<and> uncommittedChanges w' = uncommittedChanges exWorld
            else ?full \<notin> set evs
               \<and> Index sf' \<notin> Index ` snd ` set (storageFolders exWorld)
               \<and> Index sf' \<notin> Index ` (\<Union>uc \<in> set (uncommittedChanges exWorld). set (UnfinishedStorageFolderAdditions uc))
               \<and> (\<exists>k < 65536. Index sf' = word_of_int (fst (RandIntn exDeps 65536)) + of_nat k
                     \<and> (\<forall>j < k. word_of_int (fst (RandIntn exDeps 65536)) + of_nat j \<in> uniqueFolders exWorld))"
    by blast
  from c exWorld_room(2)
  have "Index sf' \<notin> Index ` snd ` set (storageFolders exWorld)"
    "Index sf' \<notin> Index ` (\<Union>uc \<in> set (uncommittedChanges exWorld). set (UnfinishedStorageFolderAdditions uc))"
    by (simp_all only: if_False) blast+
  with r exWorld_room(2) show ?thesis by simp
qed

subsection \<open>The run without failure\<close>

lemma begin_ok:
  assumes nodup1: "Path sf \<notin> set (map (Path \<circ> snd) (storageFolders w))"
    and nodup2: "Path sf \<notin> set (map Path (concat (map UnfinishedStorageFolderAdditions (uncommittedChanges w))))"
    and cap: "\<not> maximumStorageFolders c < of_nat (card (uniqueFolders w))"
    and free: "uniqueFolders w \<noteq> UNIV"
    and create: "createErr d name = None"
    and sf3: "sf3 = sf\<lparr>Index := snd (probe (uniqueFolders w) 0 (word_of_int (fst (RandIntn d 65536)))),
                        file' := Some name, atomicProgressDenominator := tot\<rparr>"
  shows "\<exists>w1. managedAddStorageFolder_begin c d tot name sf w = (None, sf3, w1)
           \<and> storageFolders w1 = storageFolders w
           \<and> files w1 = (files w)(name \<mapsto> 0)
           \<and> uncommittedChanges w1 =
               uncommittedChanges w @ (if appendErr d (pendingRecord sf3) = None then [pendingRecord sf3] else [])
           \<and> appendsOf (events w1) = appendsOf (events w) @ [pendingRecord sf3]"
proof -
  obtain r rerr where rnd: "RandIntn d 65536 = (r, rerr)" by (cases "RandIntn d 65536")
  obtain it idx where p: "probe (uniqueFolders w) 0 (word_of_int r) = (it, idx)"
    by (cases "probe (uniqueFolders w) 0 (word_of_int r)")
  from probe_free [OF free, of "word_of_int r"] p have it: "it \<noteq> 65536" by simp
  show ?thesis
    using nodup1 nodup2 cap it
    unfolding managedAddStorageFolder_begin_def
    by (simp add: rnd p Let_def createFile_def create sf3 appendChange_result
        pendingRecord_def split_beta)
qed


lemma writeLoop_ok:
  assumes wr: "\<forall>n. writeErr d n = None"
  shows "file' sf = Some name \<Longrightarrow> files w name = Some len \<Longrightarrow> i \<le> wc \<Longrightarrow> unat wc - unat i = n \<Longrightarrow>
    \<exists>w'. managedAddStorageFolder_writeLoop d wc i sf w =
            (None, sf\<lparr>atomicProgressNumerator := atomicProgressNumerator sf + 4000000 * (wc - i)\<rparr>, w')
        \<and> files w' = (files w)(name \<mapsto> len + 4000000 * n)
        \<and> storageFolders w' = storageFolders w
        \<and> uncommittedChanges w' = uncommittedChanges w
        \<and> appendsOf (events w') = appendsOf (events w)"
proof (induction n arbitrary: i sf w len)
  case 0
  then have "unat wc \<le> unat i" by simp
  with 0 have "i = wc" by (simp add: word_le_nat_alt word_unat_eq_iff)
  then show ?case
    using 0 by (simp add: managedAddStorageFolder_writeLoop.simps [of d wc wc] map_upd_triv)
next
  case (Suc n)
  then have lt: "i < wc" by (simp add: word_less_nat_alt)
  then have suc: "unat (i + 1) = Suc (unat i)" by unat_arith
  from lt have le: "i + 1 \<le> wc" by (rule inc_le)
  from suc Suc.prems have n: "unat wc - unat (i + 1) = n" by simp
  let ?sf1 = "sf\<lparr>atomicProgressNumerator := atomicProgressNumerator sf + 4000000\<rparr>"
  let ?w1 = "emit (WriteFile name 4000000 None) (w\<lparr>files := (files w)(name \<mapsto> len + 4000000)\<rparr>)"
  let ?w2 = "emit (Progress (atomicProgressNumerator ?sf1) (atomicProgressDenominator ?sf1)) ?w1"
  have fw: "fileWrite d (file' sf) 4000000 w = (None, ?w1)"
    using Suc.prems wr by (simp add: fileWrite_def)
  have step: "managedAddStorageFolder_writeLoop d wc i sf w =
              managedAddStorageFolder_writeLoop d wc (i + 1) ?sf1 ?w2"
    using lt by (simp add: managedAddStorageFolder_writeLoop.simps [of d wc i] fw Let_def)
  have f1: "file' ?sf1 = Some name" using Suc.prems by simp
  have f2: "files ?w2 name = Some (len + 4000000)" by simp
  from Suc.IH [OF f1 f2 le n] obtain w' where
    r: "managedAddStorageFolder_writeLoop d wc (i + 1) ?sf1 ?w2 =
          (None, ?sf1\<lparr>atomicProgressNumerator := atomicProgressNumerator ?sf1 + 4000000 * (wc - (i + 1))\<rparr>, w')"
    and fs: "files w' = (files ?w2)(name \<mapsto> len + 4000000 + 4000000 * n)"
    and rest: "storageFolders w' = storageFolders ?w2" "uncommittedChanges w' = uncommittedChanges ?w2"
      "appendsOf (events w') = appendsOf (events ?w2)"
    by blast
  have num: "atomicProgressNumerator sf + 4000000 + 4000000 * (wc - (i + 1))
             = atomicProgressNumerator sf + 4000000 * (wc - i)"
    by (simp add: algebra_simps)
  have e: "len + 4000000 + 4000000 * n = len + 4000000 * Suc n" by simp
  have fs': "files w' = (files w)(name \<mapsto> len + 4000000 * Suc n)"
    unfolding fs e [symmetric] by simp
  from r num have r': "managedAddStorageFolder_writeLoop d wc i sf w =
      (None, sf\<lparr>atomicProgressNumerator := atomicProgressNumerator sf + 4000000 * (wc - i)\<rparr>, w')"
    by (simp add: step)
  from rest have "storageFolders w' = storageFolders w" "uncommittedChanges w' = uncommittedChanges w"
      "appendsOf (events w') = appendsOf (events w)"
    by simp_all
  with r' fs' show ?case by blast
qed

lemma unat_div_mod_4e6:
  "4000000 * unat ((t :: uint64) div 4000000) + unat (t mod 4000000) = unat t"
  by (simp add: unat_div unat_mod)


lemma finish_result:
  assumes sfF: "sfF = sf\<lparr>atomicProgressNumerator := 0, atomicProgressDenominator := 0\<rparr>"
  shows "\<exists>w'. managedAddStorageFolder_finish d sf w =
            (ExtendErr ''storage folder commitment assignment failed'' (appendErr d (committedRecord sfF)), sfF, w')
        \<and> files w' = files w
        \<and> storageFolders w' = AList.update (Index sf) sfF (storageFolders w)
        \<and> uncommittedChanges w' =
            uncommittedChanges w @ (if appendErr d (committedRecord sfF) = None then [committedRecord sfF] else [])
        \<and> appendsOf (events w') = appendsOf (events w) @ [committedRecord sfF]"
  unfolding managedAddStorageFolder_finish_def sfF
  by (cases "appendErr d (committedRecord (sf\<lparr>atomicProgressNumerator := 0, atomicProgressDenominator := 0\<rparr>))")
     (simp_all add: Let_def split_beta appendChange_result committedRecord_def)

lemma allocate_written:
  assumes wr: "\<forall>n. writeErr d n = None"
    and sy: "syncErr d name = None"
    and h: "file' sf = Some name"
    and f0: "files w name = Some 0"
    and sf2: "sf2 = sf\<lparr>atomicProgressNumerator := atomicProgressNumerator sf + 4000000 * (tot div 4000000),
                        atomicProgressDenominator := tot\<rparr>"
  shows "\<exists>w4. managedAddStorageFolder_allocate d tot sf w =
            (if disrupt d ''incompleteAddStorageFolder'' then (None, None, sf2, w4)
             else (let (err, sf3, w5) = managedAddStorageFolder_finish d sf2 w4
                   in if err \<noteq> None then (err, err, sf3, w5) else (None, None, sf3, w5)))
        \<and> files w4 = (files w)(name \<mapsto> unat tot)
        \<and> storageFolders w4 = storageFolders w
        \<and> uncommittedChanges w4 = uncommittedChanges w
        \<and> appendsOf (events w4) = appendsOf (events w)"
proof -
  have le: "0 \<le> tot div 4000000" by simp
  have n: "unat (tot div 4000000) - unat (0 :: uint64) = unat (tot div 4000000)" by simp
  from writeLoop_ok [OF wr h f0 le n] obtain w1 where
    l: "managedAddStorageFolder_writeLoop d (tot div 4000000) 0 sf w =
          (None, sf\<lparr>atomicProgressNumerator := atomicProgressNumerator sf + 4000000 * (tot div 4000000 - 0)\<rparr>, w1)"
    and fs: "files w1 = (files w)(name \<mapsto> 0 + 4000000 * unat (tot div 4000000))"
    and rest: "storageFolders w1 = storageFolders w" "uncommittedChanges w1 = uncommittedChanges w"
      "appendsOf (events w1) = appendsOf (events w)"
    by blast
  have len: "4000000 * unat (tot div 4000000) + unat (tot mod 4000000) = unat tot"
    by (rule unat_div_mod_4e6)
  let ?w4 = "emit (Progress (atomicProgressNumerator sf + 4000000 * (tot div 4000000)) tot)
               (emit (SyncFile name None)
                  (emit (WriteFile name (unat (tot mod 4000000)) None)
                     (w1\<lparr>files := (files w)(name \<mapsto> unat tot)\<rparr>)))"
  have "managedAddStorageFolder_allocate d tot sf w =
            (if disrupt d ''incompleteAddStorageFolder'' then (None, None, sf2, ?w4)
             else (let (err, sf3, w5) = managedAddStorageFolder_finish d sf2 ?w4
                   in if err \<noteq> None then (err, err, sf3, w5) else (None, None, sf3, w5)))"
    unfolding managedAddStorageFolder_allocate_def
    using h by (simp add: l Let_def fileWrite_def fs wr fileSync_def sy sf2 len)
  moreover have "files ?w4 = (files w)(name \<mapsto> unat tot)" "storageFolders ?w4 = storageFolders w"
    "uncommittedChanges ?w4 = uncommittedChanges w" "appendsOf (events ?w4) = appendsOf (events w)"
    using rest by simp_all
  ultimately show ?thesis by blast
qed

lemma deferred_nil [simp]: "managedAddStorageFolder_deferred d name None sf w = (None, w)"
  by (simp add: managedAddStorageFolder_deferred_def)

lemma managed_disrupt:
  assumes nodup1: "Path sf \<notin> set (map (Path \<circ> snd) (storageFolders w))"
    and nodup2: "Path sf \<notin> set (map Path (concat (map UnfinishedStorageFolderAdditions (uncommittedChanges w))))"
    and cap: "\<not> maximumStorageFolders c < of_nat (card (uniqueFolders w))"
    and free: "uniqueFolders w \<noteq> UNIV"
    and name: "name = filepathJoin d (Path sf) (sectorFile c)"
    and tot: "tot = of_nat (length (Usage sf)) * 64 * sectorMetadataDiskSize c
                    + of_nat (length (Usage sf)) * 64 * SectorSize c"
    and create: "createErr d name = None"
    and wr: "\<forall>n. writeErr d n = None"
    and sy: "syncErr d name = None"
    and dis: "disrupt d ''incompleteAddStorageFolder''"
    and sf3: "sf3 = sf\<lparr>Index := snd (probe (uniqueFolders w) 0 (word_of_int (fst (RandIntn d 65536)))),
                        file' := Some name, atomicProgressDenominator := tot\<rparr>"
  shows "\<exists>w'. managedAddStorageFolder c d sf w =
            (None, sf3\<lparr>atomicProgressNumerator := atomicProgressNumerator sf + 4000000 * (tot div 4000000)\<rparr>, w')
        \<and> storageFolders w' = storageFolders w
        \<and> files w' = (files w)(name \<mapsto> unat tot)
        \<and> uncommittedChanges w' =
            uncommittedChanges w @ (if appendErr d (pendingRecord sf3) = None then [pendingRecord sf3] else [])
        \<and> appendsOf (events w') = appendsOf (events w) @ [pendingRecord sf3]"
proof -
  from begin_ok [OF nodup1 nodup2 cap free create sf3] obtain w1 where
    b: "managedAddStorageFolder_begin c d tot name sf w = (None, sf3, w1)"
    and w1: "storageFolders w1 = storageFolders w" "files w1 = (files w)(name \<mapsto> 0)"
      "uncommittedChanges w1 =
         uncommittedChanges w @ (if appendErr d (pendingRecord sf3) = None then [pendingRecord sf3] else [])"
      "appendsOf (events w1) = appendsOf (events w) @ [pendingRecord sf3]"
    by blast
  have h: "file' sf3 = Some name" by (simp add: sf3)
  have f0: "files w1 name = Some 0" by (simp add: w1)
  let ?sf2 = "sf3\<lparr>atomicProgressNumerator := atomicProgressNumerator sf3 + 4000000 * (tot div 4000000),
                    atomicProgressDenominator := tot\<rparr>"
  from allocate_written [OF wr sy h f0 refl, of tot] dis obtain w4 where
    a: "managedAddStorageFolder_allocate d tot sf3 w1 = (None, None, ?sf2, w4)"
    and w4: "files w4 = (files w1)(name \<mapsto> unat tot)" "storageFolders w4 = storageFolders w1"
      "uncommittedChanges w4 = uncommittedChanges w1" "appendsOf (events w4) = appendsOf (events w1)"
    by auto
  have "managedAddStorageFolder c d sf w = (None, ?sf2, w4)"
    unfolding managedAddStorageFolder_def
    by (simp add: Let_def name [symmetric] tot [symmetric] b a)
  moreover have "?sf2 = sf3\<lparr>atomicProgressNumerator := atomicProgressNumerator sf + 4000000 * (tot div 4000000)\<rparr>"
    by (simp add: sf3)
  moreover have "files w4 = (files w)(name \<mapsto> unat tot)"
    by (simp add: w4 w1)
  ultimately show ?thesis
    using w4 w1 by auto
qed

lemma managed_success:
  assumes nodup1: "Path sf \<notin> set (map (Path \<circ> snd) (storageFolders w))"
    and nodup2: "Path sf \<notin> set (map Path (concat (map UnfinishedStorageFolderAdditions (uncommittedChanges w))))"
    and cap: "\<not> maximumStorageFolders c < of_nat (card (uniqueFolders w))"
    and free: "uniqueFolders w \<noteq> UNIV"
    and name: "name = filepathJoin d (Path sf) (sectorFile c)"
    and tot: "tot = of_nat (length (Usage sf)) * 64 * sectorMetadataDiskSize c
                    + of_nat (length (Usage sf)) * 64 * SectorSize c"
    and create: "createErr d name = None"
    and wr: "\<forall>n. writeErr d n = None"
    and sy: "syncErr d name = None"
    and dis: "\<not> disrupt d ''incompleteAddStorageFolder''"
    and app: "\<forall>sc. appendErr d sc = None"
    and sf3: "sf3 = sf\<lparr>Index := snd (probe (uniqueFolders w) 0 (word_of_int (fst (RandIntn d 65536)))),
                        file' := Some name, atomicProgressDenominator := tot\<rparr>"
    and sfF: "sfF = sf3\<lparr>atomicProgressNumerator := 0, atomicProgressDenominator := 0\<rparr>"
  shows "\<exists>w'. managedAddStorageFolder c d sf w = (None, sfF, w')
        \<and> storageFolders w' = AList.update (Index sfF) sfF (storageFolders w)
        \<and> files w' = (files w)(name \<mapsto> unat tot)
        \<and> uncommittedChanges w' = uncommittedChanges w @ [pendingRecord sf3, committedRecord sfF]
        \<and> appendsOf (events w') = appendsOf (events w) @ [pendingRecord sf3, committedRecord sfF]"
proof -
  from begin_ok [OF nodup1 nodup2 cap free create sf3] app obtain w1 where
    b: "managedAddStorageFolder_begin c d tot name sf w = (None, sf3, w1)"
    and w1: "storageFolders w1 = storageFolders w" "files w1 = (files w)(name \<mapsto> 0)"
      "uncommittedChanges w1 = uncommittedChanges w @ [pendingRecord sf3]"
      "appendsOf (events w1) = appendsOf (events w) @ [pendingRecord sf3]"
    by auto
  have h: "file' sf3 = Some name" by (simp add: sf3)
  have f0: "files w1 name = Some 0" by (simp add: w1)
  let ?sf2 = "sf3\<lparr>atomicProgressNumerator := atomicProgressNumerator sf3 + 4000000 * (tot div 4000000),
                    atomicProgressDenominator := tot\<rparr>"
  from allocate_written [OF wr sy h f0 refl, of tot] dis obtain w4 where
    a: "managedAddStorageFolder_allocate d tot sf3 w1 =
          (let (err, sf3, w5) = managedAddStorageFolder_finish d ?sf2 w4
           in if err \<noteq> None then (err, err, sf3, w5) else (None, None, sf3, w5))"
    and w4: "files w4 = (files w1)(name \<mapsto> unat tot)" "storageFolders w4 = storageFolders w1"
      "uncommittedChanges w4 = uncommittedChanges w1" "appendsOf (events w4) = appendsOf (events w1)"
    by auto
  have F: "sfF = ?sf2\<lparr>atomicProgressNumerator := 0, atomicProgressDenominator := 0\<rparr>"
    by (simp add: sfF)
  from finish_result [OF F, of d w4] app obtain w5 where
    f: "managedAddStorageFolder_finish d ?sf2 w4 = (None, sfF, w5)"
    and w5: "files w5 = files w4" "storageFolders w5 = AList.update (Index ?sf2) sfF (storageFolders w4)"
      "uncommittedChanges w5 = uncommittedChanges w4 @ [committedRecord sfF]"
      "appendsOf (events w5) = appendsOf (events w4) @ [committedRecord sfF]"
    by auto
  have "managedAddStorageFolder c d sf w = (None, sfF, w5)"
    unfolding managedAddStorageFolder_def
    by (simp add: Let_def name [symmetric] tot [symmetric] b a f)
  moreover have "Index ?sf2 = Index sfF" by (simp add: sfF)
  moreover have "files w5 = (files w)(name \<mapsto> unat tot)"
    by (simp add: w5 w4 w1)
  ultimately show ?thesis
    using w5 w4 w1 by auto
qed

text \<open>
  C10. When the first closure succeeds, every write and the sync succeed, and the hook
  \<^verbatim>\<open>incompleteAddStorageFolder\<close> fires, \<^verbatim>\<open>managedAddStorageFolder\<close> returns \<^verbatim>\<open>nil\<close>
  (which \<^verbatim>\<open>AddStorageFolder\<close> hands on to its caller), although the registry is as it
  was, the only record the run tried to append is the pending one, and the progress
  counters are not stored as zero: the denominator is the total size and the numerator
  is 4e6 times the number of full chunks.
\<close>

theorem disrupted_add_returns_nil:
  fixes c :: constants and d :: dependencies and sf :: storageFolder and w :: world
  defines "name \<equiv> filepathJoin d (Path sf) (sectorFile c)"
    and "tot \<equiv> of_nat (length (Usage sf)) * 64 * sectorMetadataDiskSize c
                + of_nat (length (Usage sf)) * 64 * SectorSize c"
  assumes nodup1: "Path sf \<notin> Path ` snd ` set (storageFolders w)"
    and nodup2: "Path sf \<notin> Path ` (\<Union>uc \<in> set (uncommittedChanges w). set (UnfinishedStorageFolderAdditions uc))"
    and cap: "card (uniqueFolders w) \<le> unat (maximumStorageFolders c)"
    and free: "uniqueFolders w \<noteq> UNIV"
    and create: "createErr d name = None"
    and wr: "\<forall>n. writeErr d n = None"
    and sy: "syncErr d name = None"
    and dis: "disrupt d ''incompleteAddStorageFolder''"
  shows "\<exists>idx w'.
           managedAddStorageFolder c d sf w =
             (None,
              sf\<lparr>Index := idx, file' := Some name,
                 atomicProgressNumerator := atomicProgressNumerator sf + 4000000 * (tot div 4000000),
                 atomicProgressDenominator := tot\<rparr>,
              w')
         \<and> storageFolders w' = storageFolders w
         \<and> appendsOf (events w') =
             appendsOf (events w)
             @ [pendingRecord (sf\<lparr>Index := idx, file' := Some name, atomicProgressDenominator := tot\<rparr>)]
         \<and> uncommittedChanges w' =
             uncommittedChanges w
             @ (if appendErr d (pendingRecord (sf\<lparr>Index := idx, file' := Some name, atomicProgressDenominator := tot\<rparr>)) = None
                then [pendingRecord (sf\<lparr>Index := idx, file' := Some name, atomicProgressDenominator := tot\<rparr>)]
                else [])"
proof -
  have cap': "\<not> maximumStorageFolders c < of_nat (card (uniqueFolders w))"
    using cap by (simp add: capacity_check)
  let ?idx = "snd (probe (uniqueFolders w) 0 (word_of_int (fst (RandIntn d 65536))))"
  let ?sf3 = "sf\<lparr>Index := ?idx, file' := Some name, atomicProgressDenominator := tot\<rparr>"
  from managed_disrupt [OF nodup1 [folded nodup_forms] nodup2 [folded nodup_forms] cap' free
      name_def [THEN meta_eq_to_obj_eq] tot_def [THEN meta_eq_to_obj_eq] create wr sy dis refl]
  obtain w' where
    r: "managedAddStorageFolder c d sf w =
          (None, ?sf3\<lparr>atomicProgressNumerator := atomicProgressNumerator sf + 4000000 * (tot div 4000000)\<rparr>, w')"
    and w': "storageFolders w' = storageFolders w"
      "uncommittedChanges w' =
         uncommittedChanges w @ (if appendErr d (pendingRecord ?sf3) = None then [pendingRecord ?sf3] else [])"
      "appendsOf (events w') = appendsOf (events w) @ [pendingRecord ?sf3]"
    by blast
  show ?thesis
    apply (rule exI [of _ ?idx])
    apply (rule exI [of _ w'])
    using r w' apply simp
    done
qed

theorem disrupted_add_returns_nil_witness:
  "disrupt exDisruptDeps ''incompleteAddStorageFolder''
   \<and> fst (managedAddStorageFolder exConstants exDisruptDeps exNewFolder exWorld) = None
   \<and> atomicProgressDenominator (fst (snd (managedAddStorageFolder exConstants exDisruptDeps exNewFolder exWorld))) = 263040
   \<and> storageFolders (snd (snd (managedAddStorageFolder exConstants exDisruptDeps exNewFolder exWorld)))
       = storageFolders exWorld"
proof -
  have dis: "disrupt exDisruptDeps ''incompleteAddStorageFolder''"
    by (simp add: exDisruptDeps_def)
  have env: "createErr exDisruptDeps (filepathJoin exDisruptDeps (Path exNewFolder) (sectorFile exConstants)) = None"
    "\<forall>n. writeErr exDisruptDeps n = None"
    "syncErr exDisruptDeps (filepathJoin exDisruptDeps (Path exNewFolder) (sectorFile exConstants)) = None"
    by (simp_all add: exDisruptDeps_def exDeps_def)
  from disrupted_add_returns_nil [OF exWorld_nodup exWorld_room env dis]
  show ?thesis
    using dis by (auto simp: exNewFolder_def exConstants_def)
qed

subsection \<open>AddStorageFolder\<close>

lemma sectors_multiple_of_64:
  fixes sectors g :: uint64
  assumes "sectors mod g = 0" and "g mod 64 = 0"
  shows "64 dvd unat sectors"
proof -
  from assms(1) have "unat sectors mod unat g = 0"
    by (metis unat_mod unsigned_0)
  then have a: "unat g dvd unat sectors" by (simp add: dvd_eq_mod_eq_0)
  from assms(2) have "unat g mod unat (64 :: uint64) = 0"
    by (metis unat_mod unsigned_0)
  then have "64 dvd unat g" by (simp add: dvd_eq_mod_eq_0)
  with a show ?thesis by (rule dvd_trans [rotated])
qed

lemma numSectors_eq:
  fixes sectors :: uint64
  assumes "64 dvd unat sectors"
  shows "(of_nat (unat (sectors div 64)) :: uint64) * 64 = sectors"
proof -
  have "unat (sectors div 64) = unat sectors div 64" by (simp add: unat_div)
  moreover from assms have "unat sectors div 64 * 64 = unat sectors" by simp
  ultimately have "of_nat (unat (sectors div 64) * 64) = (of_nat (unat sectors) :: uint64)"
    by simp
  then show ?thesis by simp
qed

lemma totalSize_unat:
  fixes n s m :: uint64
  assumes "unat n * (unat s + unat m) < 2 ^ 64"
  shows "unat (n * m + n * s) = unat n * (unat s + unat m)"
proof -
  have e: "unat n * (unat s + unat m) = unat n * unat m + unat n * unat s"
    by (simp add: algebra_simps)
  with assms have lt: "unat n * unat m + unat n * unat s < 2 ^ 64" by simp
  then have "unat n * unat m < 2 ^ LENGTH(64)" "unat n * unat s < 2 ^ LENGTH(64)" by simp_all
  then have p: "unat (n * m) = unat n * unat m" "unat (n * s) = unat n * unat s"
    by (simp_all add: unat_mult_lem [symmetric])
  with lt have "unat (n * m) + unat (n * s) < 2 ^ LENGTH(64)" by simp
  then have "unat (n * m + n * s) = unat (n * m) + unat (n * s)"
    by (simp add: unat_add_lem [symmetric])
  with p e show ?thesis by simp
qed

text \<open>
  C1, as stated, fails: the size and the path are as the claim asks, the path is not
  registered, and \<^verbatim>\<open>AddStorageFolder\<close> returns an error, because the backing file
  cannot be created; the registry stays empty.
\<close>

theorem AddStorageFolder_create_failure_counterexample:
  "minimumSectorsPerStorageFolder exConstants \<le> 262144 div SectorSize exConstants
   \<and> 262144 div SectorSize exConstants \<le> maximumSectorsPerStorageFolder exConstants
   \<and> (262144 div SectorSize exConstants) mod storageFolderGranularity exConstants = 0
   \<and> filepathIsAbs exNoCreateDeps ''/mnt/c''
   \<and> osStat exNoCreateDeps ''/mnt/c'' = Inr True
   \<and> ''/mnt/c'' \<notin> Path ` snd ` set (storageFolders emptyWorld)
   \<and> ''/mnt/c'' \<notin> Path ` (\<Union>uc \<in> set (uncommittedChanges emptyWorld). set (UnfinishedStorageFolderAdditions uc))
   \<and> fst (AddStorageFolder exConstants exNoCreateDeps ''/mnt/c'' 262144 emptyWorld)
       = Some (Extended ''could not create storage folder file'' (OSError ''permission denied''))
   \<and> storageFolders (snd (AddStorageFolder exConstants exNoCreateDeps ''/mnt/c'' 262144 emptyWorld)) = []"
  by (simp add: run_defs ex_defs exNoCreateDeps_def)

text \<open>
  C1, amended. Let the size be within the bounds and a multiple of the granularity, the
  granularity a multiple of 64, the total size below \<open>2 ^ 64\<close>, the path absolute
  and an existing directory that is the path of no folder of the registry and of no
  unfinished addition of the uncommitted changes. Let there be room (the count of
  distinct indices is below the maximum, and some index is free), let the thread
  group admit the call, let the creation of the file, every write, the sync and every
  append succeed, and let the hook not fire. Then \<^verbatim>\<open>AddStorageFolder\<close> returns
  \<^verbatim>\<open>nil\<close>; the registry holds the new folder at an index that no folder of the
  registry and no unfinished addition had, with a usage list of \<open>sectors div 64\<close> zero
  words and both progress counters zero; the other entries of the registry are as they
  were; and the backing file is \<open>sectors * (SectorSize + sectorMetadataDiskSize)\<close>
  bytes long.
\<close>

theorem AddStorageFolder_succeeds:
  fixes c :: constants and d :: dependencies and path :: string and size' :: uint64 and w :: world
  defines "sectors \<equiv> size' div SectorSize c"
    and "name \<equiv> filepathJoin d path (sectorFile c)"
  assumes small: "minimumSectorsPerStorageFolder c \<le> sectors"
    and large: "sectors \<le> maximumSectorsPerStorageFolder c"
    and gran: "sectors mod storageFolderGranularity c = 0"
    and g64: "storageFolderGranularity c mod 64 = 0"
    and noov: "unat sectors * (unat (SectorSize c) + unat (sectorMetadataDiskSize c)) < 2 ^ 64"
    and abs: "filepathIsAbs d path"
    and dir: "osStat d path = Inr True"
    and nodup1: "path \<notin> Path ` snd ` set (storageFolders w)"
    and nodup2: "path \<notin> Path ` (\<Union>uc \<in> set (uncommittedChanges w). set (UnfinishedStorageFolderAdditions uc))"
    and cap: "card (uniqueFolders w) < unat (maximumStorageFolders c)"
    and free: "uniqueFolders w \<noteq> UNIV"
    and tg: "tgAdd d = None"
    and create: "createErr d name = None"
    and wr: "\<forall>n. writeErr d n = None"
    and sy: "syncErr d name = None"
    and app: "\<forall>sc. appendErr d sc = None"
    and dis: "\<not> disrupt d ''incompleteAddStorageFolder''"
  shows "\<exists>idx w'.
           AddStorageFolder c d path size' w = (None, w')
         \<and> idx \<notin> Index ` snd ` set (storageFolders w)
         \<and> idx \<notin> Index ` (\<Union>uc \<in> set (uncommittedChanges w). set (UnfinishedStorageFolderAdditions uc))
         \<and> map_of (storageFolders w') idx =
             Some \<lparr>Index = idx, Path = path, Usage = replicate (unat sectors div 64) 0,
                   file' = Some name, atomicProgressNumerator = 0,
                   atomicProgressDenominator = 0, failedReads = 0\<rparr>
         \<and> (\<forall>k. k \<noteq> idx \<longrightarrow> map_of (storageFolders w') k = map_of (storageFolders w) k)
         \<and> files w' name = Some (unat sectors * (unat (SectorSize c) + unat (sectorMetadataDiskSize c)))"
proof -
  let ?newSF = "\<lparr>Index = 0, Path = path, Usage = replicate (unat (sectors div 64)) 0,
                  file' = None, atomicProgressNumerator = 0, atomicProgressDenominator = 0,
                  failedReads = 0\<rparr>"
  let ?idx = "snd (probe (uniqueFolders w) 0 (word_of_int (fst (RandIntn d 65536))))"
  let ?tot = "sectors * sectorMetadataDiskSize c + sectors * SectorSize c"
  let ?sf3 = "?newSF\<lparr>Index := ?idx, file' := Some name, atomicProgressDenominator := ?tot\<rparr>"
  let ?sfF = "?sf3\<lparr>atomicProgressNumerator := 0, atomicProgressDenominator := 0\<rparr>"
  have d64: "64 dvd unat sectors"
    using gran g64 by (rule sectors_multiple_of_64)
  have ns: "(of_nat (length (Usage ?newSF)) :: uint64) * 64 = sectors"
    using numSectors_eq [OF d64] by simp
  have tot: "?tot = of_nat (length (Usage ?newSF)) * 64 * sectorMetadataDiskSize c
                    + of_nat (length (Usage ?newSF)) * 64 * SectorSize c"
    by (simp only: ns)
  have cap': "\<not> maximumStorageFolders c < of_nat (card (uniqueFolders w))"
    using cap by (simp add: capacity_check)
  have n1: "Path ?newSF \<notin> set (map (Path \<circ> snd) (storageFolders w))"
    using nodup1 by (simp add: image_image)
  have n2: "Path ?newSF \<notin> set (map Path (concat (map UnfinishedStorageFolderAdditions (uncommittedChanges w))))"
    using nodup2 by (simp add: nodup_forms)
  have nm: "name = filepathJoin d (Path ?newSF) (sectorFile c)"
    by (simp add: name_def)
  from managed_success [OF n1 n2 cap' free nm tot create wr sy dis app refl refl]
  obtain w' where
    r: "managedAddStorageFolder c d ?newSF w = (None, ?sfF, w')"
    and reg: "storageFolders w' = AList.update (Index ?sfF) ?sfF (storageFolders w)"
    and fs: "files w' = (files w)(name \<mapsto> unat ?tot)"
    by blast
  have ok: "\<not> maximumSectorsPerStorageFolder c < sectors" "\<not> sectors < minimumSectorsPerStorageFolder c"
    using small large by (simp_all add: not_less)
  have res: "AddStorageFolder c d path size' w = (None, w')"
    using ok gran abs dir tg
    unfolding AddStorageFolder_def
    by (simp add: sectors_def [symmetric] Let_def r)
  have "?idx \<notin> uniqueFolders w"
    using probe_free [OF free] by blast
  then have fresh: "?idx \<notin> Index ` snd ` set (storageFolders w)"
    "?idx \<notin> Index ` (\<Union>uc \<in> set (uncommittedChanges w). set (UnfinishedStorageFolderAdditions uc))"
    by (auto simp: uniqueFolders_def image_iff)
  have len: "unat (sectors div 64) = unat sectors div 64"
    by (simp add: unat_div)
  have entry: "map_of (storageFolders w') ?idx =
      Some \<lparr>Index = ?idx, Path = path, Usage = replicate (unat sectors div 64) 0,
            file' = Some name, atomicProgressNumerator = 0,
            atomicProgressDenominator = 0, failedReads = 0\<rparr>"
    by (simp add: reg update_conv' len)
  have others: "\<forall>k. k \<noteq> ?idx \<longrightarrow> map_of (storageFolders w') k = map_of (storageFolders w) k"
    by (simp add: reg update_conv')
  have bytes: "files w' name = Some (unat sectors * (unat (SectorSize c) + unat (sectorMetadataDiskSize c)))"
    by (simp add: fs totalSize_unat [OF noov])
  from res fresh entry others bytes show ?thesis by blast
qed

theorem AddStorageFolder_succeeds_witness:
  "fst (AddStorageFolder exConstants exDeps ''/mnt/c'' 262144 exWorld) = None
   \<and> files (snd (AddStorageFolder exConstants exDeps ''/mnt/c'' 262144 exWorld)) ''/mnt/c/siahostdata.dat''
       = Some 263040"
proof -
  have sz: "minimumSectorsPerStorageFolder exConstants \<le> 262144 div SectorSize exConstants"
    "262144 div SectorSize exConstants \<le> maximumSectorsPerStorageFolder exConstants"
    "(262144 div SectorSize exConstants) mod storageFolderGranularity exConstants = 0"
    "storageFolderGranularity exConstants mod 64 = 0"
    "unat (262144 div SectorSize exConstants)
       * (unat (SectorSize exConstants) + unat (sectorMetadataDiskSize exConstants)) < 2 ^ 64"
    by (simp_all add: exConstants_def)
  have pa: "filepathIsAbs exDeps ''/mnt/c''" "osStat exDeps ''/mnt/c'' = Inr True"
    by (simp_all add: exDeps_def)
  have nd: "''/mnt/c'' \<notin> Path ` snd ` set (storageFolders exWorld)"
    "''/mnt/c'' \<notin> Path ` (\<Union>uc \<in> set (uncommittedChanges exWorld). set (UnfinishedStorageFolderAdditions uc))"
    by (simp_all add: exWorld_def exFolder_def pendingRecord_def)
  have env: "tgAdd exDeps = None"
    "createErr exDeps (filepathJoin exDeps ''/mnt/c'' (sectorFile exConstants)) = None"
    "\<forall>n. writeErr exDeps n = None"
    "syncErr exDeps (filepathJoin exDeps ''/mnt/c'' (sectorFile exConstants)) = None"
    "\<forall>sc. appendErr exDeps sc = None"
    "\<not> disrupt exDeps ''incompleteAddStorageFolder''"
    by (simp_all add: exDeps_def)
  have room: "card (uniqueFolders exWorld) < unat (maximumStorageFolders exConstants)"
    by (simp add: uniqueFolders_exWorld exConstants_def)
  from AddStorageFolder_succeeds [OF sz pa nd room exWorld_room(2) env]
  show ?thesis
    by (auto simp: exConstants_def exDeps_def)
qed

subsection \<open>The unfinished additions of a log\<close>

lemma fold_update_lookup:
  "map_of (fold (\<lambda>sf m. AList.update (Index sf) sf m) us m) i = Some sf \<longleftrightarrow>
     (\<exists>u1 u2. us = u1 @ sf # u2 \<and> Index sf = i \<and> i \<notin> Index ` set u2)
     \<or> (i \<notin> Index ` set us \<and> map_of m i = Some sf)"
proof (induction us arbitrary: m)
  case Nil
  then show ?case by simp
next
  case (Cons u us)
  have "(\<exists>u1 u2. u # us = u1 @ sf # u2 \<and> Index sf = i \<and> i \<notin> Index ` set u2) \<longleftrightarrow>
        (u = sf \<and> Index sf = i \<and> i \<notin> Index ` set us)
        \<or> (\<exists>u1 u2. us = u1 @ sf # u2 \<and> Index sf = i \<and> i \<notin> Index ` set u2)"
    by (auto simp: Cons_eq_append_conv)
  then show ?case
    by (auto simp: Cons.IH update_conv')
qed

lemma fold_delete_lookup:
  "map_of (fold AList.delete xs m) i = (if i \<in> set xs then None else map_of m i)"
  by (induction xs arbitrary: m) (auto simp: delete_conv')

lemma fold_delete_Index_lookup:
  "map_of (fold (\<lambda>sf. AList.delete (Index sf)) xs m) i = (if i \<in> Index ` set xs then None else map_of m i)"
  by (induction xs arbitrary: m) (auto simp: delete_conv')

lemma usfStep_lookup:
  "map_of (usfStep sc m) i = Some sf \<longleftrightarrow>
     i \<notin> set (finishedIndices sc) \<and>
     ((\<exists>u1 u2. UnfinishedStorageFolderAdditions sc = u1 @ sf # u2 \<and> Index sf = i \<and> i \<notin> Index ` set u2)
      \<or> (i \<notin> Index ` set (UnfinishedStorageFolderAdditions sc) \<and> map_of m i = Some sf))"
proof -
  have "map_of (usfStep sc m) i =
        (if i \<in> set (finishedIndices sc) then None
         else map_of (fold (\<lambda>sf. AList.update (Index sf) sf) (UnfinishedStorageFolderAdditions sc) m) i)"
    unfolding usfStep_def finishedIndices_def
    by (simp add: fold_delete_lookup fold_delete_Index_lookup)
  then show ?thesis
    using fold_update_lookup [of "UnfinishedStorageFolderAdditions sc" m i sf] by simp
qed

lemma fold_usfStep_lookup:
  "map_of (fold usfStep scs []) i = Some sf \<longleftrightarrow>
     (\<exists>pre sc post u1 u2.
        scs = pre @ sc # post \<and> UnfinishedStorageFolderAdditions sc = u1 @ sf # u2 \<and> Index sf = i
        \<and> i \<notin> Index ` set u2 \<and> i \<notin> set (finishedIndices sc)
        \<and> (\<forall>sc' \<in> set post. i \<notin> Index ` set (UnfinishedStorageFolderAdditions sc')
                              \<and> i \<notin> set (finishedIndices sc')))"
  (is "?L scs \<longleftrightarrow> ?R scs")
proof (induction scs rule: rev_induct)
  case Nil
  then show ?case by simp
next
  case (snoc sc scs)
  let ?here = "\<exists>u1 u2. UnfinishedStorageFolderAdditions sc = u1 @ sf # u2 \<and> Index sf = i \<and> i \<notin> Index ` set u2"
  let ?skip = "i \<notin> Index ` set (UnfinishedStorageFolderAdditions sc)"
  have step: "?L (scs @ [sc]) \<longleftrightarrow> i \<notin> set (finishedIndices sc) \<and> (?here \<or> (?skip \<and> ?R scs))"
    by (simp add: usfStep_lookup snoc.IH)
  have split: "?R (scs @ [sc]) \<longleftrightarrow>
        (i \<notin> set (finishedIndices sc) \<and> ?here)
        \<or> (?R scs \<and> ?skip \<and> i \<notin> set (finishedIndices sc))"
  proof
    assume "?R (scs @ [sc])"
    then obtain pre sc0 post u1 u2 where
      s: "scs @ [sc] = pre @ sc0 # post" and u: "UnfinishedStorageFolderAdditions sc0 = u1 @ sf # u2"
      and i: "Index sf = i" "i \<notin> Index ` set u2" "i \<notin> set (finishedIndices sc0)"
      and later: "\<forall>sc' \<in> set post. i \<notin> Index ` set (UnfinishedStorageFolderAdditions sc')
                              \<and> i \<notin> set (finishedIndices sc')"
      by blast
    show "(i \<notin> set (finishedIndices sc) \<and> ?here) \<or> (?R scs \<and> ?skip \<and> i \<notin> set (finishedIndices sc))"
    proof (cases post rule: rev_cases)
      case Nil
      with s have "sc0 = sc" by simp
      with u i show ?thesis by blast
    next
      case (snoc post' sc')
      with s have e: "scs = pre @ sc0 # post'" "sc' = sc" by simp_all
      from later snoc e(2) have here: "?skip" "i \<notin> set (finishedIndices sc)" by simp_all
      from later snoc have "\<forall>sc' \<in> set post'. i \<notin> Index ` set (UnfinishedStorageFolderAdditions sc')
                              \<and> i \<notin> set (finishedIndices sc')" by simp
      with e(1) u i have "?R scs" by blast
      with here show ?thesis by blast
    qed
  next
    assume "(i \<notin> set (finishedIndices sc) \<and> ?here) \<or> (?R scs \<and> ?skip \<and> i \<notin> set (finishedIndices sc))"
    then show "?R (scs @ [sc])"
    proof
      assume a: "i \<notin> set (finishedIndices sc) \<and> ?here"
      then obtain u1 u2 where "UnfinishedStorageFolderAdditions sc = u1 @ sf # u2" "Index sf = i"
        "i \<notin> Index ` set u2" by blast
      with a have "scs @ [sc] = scs @ sc # [] \<and> UnfinishedStorageFolderAdditions sc = u1 @ sf # u2 \<and> Index sf = i
        \<and> i \<notin> Index ` set u2 \<and> i \<notin> set (finishedIndices sc)
        \<and> (\<forall>sc' \<in> set []. i \<notin> Index ` set (UnfinishedStorageFolderAdditions sc')
                              \<and> i \<notin> set (finishedIndices sc'))" by simp
      then show ?thesis by blast
    next
      assume a: "?R scs \<and> ?skip \<and> i \<notin> set (finishedIndices sc)"
      then obtain pre sc0 post u1 u2 where
        s: "scs = pre @ sc0 # post" and u: "UnfinishedStorageFolderAdditions sc0 = u1 @ sf # u2"
        and i: "Index sf = i" "i \<notin> Index ` set u2" "i \<notin> set (finishedIndices sc0)"
        and later: "\<forall>sc' \<in> set post. i \<notin> Index ` set (UnfinishedStorageFolderAdditions sc')
                              \<and> i \<notin> set (finishedIndices sc')"
        by blast
      from s have "scs @ [sc] = pre @ sc0 # (post @ [sc])" by simp
      moreover from later a have "\<forall>sc' \<in> set (post @ [sc]). i \<notin> Index ` set (UnfinishedStorageFolderAdditions sc')
                              \<and> i \<notin> set (finishedIndices sc')" by simp
      ultimately show ?thesis using u i by blast
    qed
  qed
  from step split show ?case by blast
qed

lemma distinct_fold_update:
  "distinct (map fst m) \<Longrightarrow> distinct (map fst (fold (\<lambda>sf m. AList.update (Index sf) sf m) us m))"
  by (induction us arbitrary: m) (simp_all add: distinct_update)

lemma distinct_fold_delete:
  "distinct (map fst m) \<Longrightarrow> distinct (map fst (fold AList.delete xs m))"
  by (induction xs arbitrary: m) (simp_all add: distinct_delete)

lemma distinct_fold_delete_Index:
  "distinct (map fst m) \<Longrightarrow> distinct (map fst (fold (\<lambda>sf. AList.delete (Index sf)) xs m))"
  by (induction xs arbitrary: m) (simp_all add: distinct_delete)

lemma distinct_usfStep: "distinct (map fst m) \<Longrightarrow> distinct (map fst (usfStep sc m))"
  unfolding usfStep_def
  by (intro distinct_fold_delete distinct_fold_delete_Index distinct_fold_update)

lemma distinct_fold_usfStep: "distinct (map fst m) \<Longrightarrow> distinct (map fst (fold usfStep scs m))"
  by (induction scs arbitrary: m) (simp_all add: distinct_usfStep)

lemma usfMap_keys:
  assumes "(k, sf) \<in> set (fold usfStep scs [])"
  shows "Index sf = k"
proof -
  have "distinct (map fst (fold usfStep scs []))"
    by (rule distinct_fold_usfStep) simp
  with assms have "map_of (fold usfStep scs []) k = Some sf"
    by simp
  then show ?thesis
    unfolding fold_usfStep_lookup by blast
qed

lemma map_Index_snd:
  "(\<And>k v. (k, v) \<in> set al \<Longrightarrow> Index v = k) \<Longrightarrow> map Index (map snd al) = map fst al"
  by (induction al) auto

lemma distinct_unfinished:
  assumes perm: "\<forall>m. mset (rangeOrder d m) = mset m"
  shows "distinct (map Index (findUnfinishedStorageFolderAdditions d scs))"
proof -
  let ?m = "fold usfStep scs []"
  from perm have p: "mset (rangeOrder d ?m) = mset ?m" by blast
  then have st: "set (rangeOrder d ?m) = set ?m" by (rule mset_eq_setD)
  have "map Index (map snd (rangeOrder d ?m)) = map fst (rangeOrder d ?m)"
    by (rule map_Index_snd) (simp add: st usfMap_keys)
  moreover have "distinct (map fst ?m)"
    by (rule distinct_fold_usfStep) simp
  moreover from p have "mset (map fst (rangeOrder d ?m)) = mset (map fst ?m)"
    by (metis mset_map)
  then have "distinct (map fst (rangeOrder d ?m)) \<longleftrightarrow> distinct (map fst ?m)"
    by (rule mset_eq_imp_distinct_iff)
  ultimately have "distinct (map Index (map snd (rangeOrder d ?m)))"
    by (simp only:)
  then show ?thesis
    by (simp only: findUnfinishedStorageFolderAdditions_def)
qed

lemma unfinished_member:
  assumes perm: "\<forall>m. mset (rangeOrder d m) = mset m"
  shows "sf \<in> set (findUnfinishedStorageFolderAdditions d scs) \<longleftrightarrow>
         map_of (fold usfStep scs []) (Index sf) = Some sf"
proof
  from perm have "mset (rangeOrder d (fold usfStep scs [])) = mset (fold usfStep scs [])" by blast
  then have st: "set (rangeOrder d (fold usfStep scs [])) = set (fold usfStep scs [])"
    by (rule mset_eq_setD)
  {
    assume "sf \<in> set (findUnfinishedStorageFolderAdditions d scs)"
    then obtain k where k: "(k, sf) \<in> set (fold usfStep scs [])"
      by (auto simp: findUnfinishedStorageFolderAdditions_def st)
    then have "Index sf = k" by (rule usfMap_keys)
    moreover have "distinct (map fst (fold usfStep scs []))"
      by (rule distinct_fold_usfStep) simp
    ultimately show "map_of (fold usfStep scs []) (Index sf) = Some sf"
      using k by simp
  }
  {
    assume "map_of (fold usfStep scs []) (Index sf) = Some sf"
    then have "(Index sf, sf) \<in> set (fold usfStep scs [])" by (rule map_of_SomeD)
    then show "sf \<in> set (findUnfinishedStorageFolderAdditions d scs)"
      by (force simp: findUnfinishedStorageFolderAdditions_def st)
  }
qed

text \<open>
  C2, as stated, fails: in a log of two pending additions with the same index and no
  other record, no later record names the index, so both folders are in the set the
  claim describes; the function returns the later folder only.
\<close>

theorem unfinished_same_index_counterexample:
  "specUnfinished exLogSameIndex = [exFolder 1 ''/mnt/a'', exFolder 1 ''/mnt/b'']
   \<and> findUnfinishedStorageFolderAdditions exDeps exLogSameIndex = [exFolder 1 ''/mnt/b'']
   \<and> set (findUnfinishedStorageFolderAdditions exDeps exLogSameIndex) \<noteq> set (specUnfinished exLogSameIndex)"
  by (simp add: exLogSameIndex_def find_defs ex_defs)

text \<open>
  C2, amended. \<^verbatim>\<open>findUnfinishedStorageFolderAdditions\<close> is a left fold of the log
  (by its definition), and, in whatever order the runtime ranges over the map, it
  returns exactly the pending additions that no later entry overrides: a folder is
  returned if and only if it is a pending addition of some record such that no pending
  addition after it, in the same record or in a later one, has its index, and neither
  the same record nor a later one names its index as committed or as errored. The
  returned folders have distinct indices.
\<close>

theorem unfinished_additions_exactly:
  assumes perm: "\<forall>m. mset (rangeOrder d m) = mset m"
  shows
  "distinct (map Index (findUnfinishedStorageFolderAdditions d scs)) \<and>
   (sf \<in> set (findUnfinishedStorageFolderAdditions d scs) \<longleftrightarrow>
     (\<exists>pre sc post u1 u2.
        scs = pre @ sc # post \<and> UnfinishedStorageFolderAdditions sc = u1 @ sf # u2
        \<and> Index sf \<notin> Index ` set u2 \<and> Index sf \<notin> set (finishedIndices sc)
        \<and> (\<forall>sc' \<in> set post. Index sf \<notin> Index ` set (UnfinishedStorageFolderAdditions sc')
                              \<and> Index sf \<notin> set (finishedIndices sc'))))"
  using distinct_unfinished [OF perm, of scs]
  unfolding unfinished_member [OF perm] fold_usfStep_lookup [of scs "Index sf" sf]
  by simp

theorem unfinished_additions_exactly_witness:
  "(\<forall>m. mset (rangeOrder exDeps m) = mset m)
   \<and> exFolder 2 ''/mnt/b'' \<in> set (findUnfinishedStorageFolderAdditions exDeps exLogErrored)
   \<and> distinct (map Index (findUnfinishedStorageFolderAdditions exDeps exLogErrored))"
proof -
  have perm: "\<forall>m. mset (rangeOrder exDeps m) = mset m"
    by (simp add: exDeps_def)
  have "exLogErrored = [pendingRecord (exFolder 1 ''/mnt/a'')] @ pendingRecord (exFolder 2 ''/mnt/b'') # [erroredRecord 1]
      \<and> UnfinishedStorageFolderAdditions (pendingRecord (exFolder 2 ''/mnt/b'')) = [] @ exFolder 2 ''/mnt/b'' # []
      \<and> Index (exFolder 2 ''/mnt/b'') \<notin> Index ` set []
      \<and> Index (exFolder 2 ''/mnt/b'') \<notin> set (finishedIndices (pendingRecord (exFolder 2 ''/mnt/b'')))
      \<and> (\<forall>sc' \<in> set [erroredRecord 1].
            Index (exFolder 2 ''/mnt/b'') \<notin> Index ` set (UnfinishedStorageFolderAdditions sc')
            \<and> Index (exFolder 2 ''/mnt/b'') \<notin> set (finishedIndices sc'))"
    by (simp add: exLogErrored_def ex_defs finishedIndices_def)
  then have "\<exists>pre sc post u1 u2.
        exLogErrored = pre @ sc # post \<and> UnfinishedStorageFolderAdditions sc = u1 @ exFolder 2 ''/mnt/b'' # u2
        \<and> Index (exFolder 2 ''/mnt/b'') \<notin> Index ` set u2 \<and> Index (exFolder 2 ''/mnt/b'') \<notin> set (finishedIndices sc)
        \<and> (\<forall>sc' \<in> set post. Index (exFolder 2 ''/mnt/b'') \<notin> Index ` set (UnfinishedStorageFolderAdditions sc')
                              \<and> Index (exFolder 2 ''/mnt/b'') \<notin> set (finishedIndices sc'))"
    by blast
  with unfinished_additions_exactly [OF perm, of exLogErrored "exFolder 2 ''/mnt/b''"] perm
  show ?thesis by blast
qed

subsection \<open>The cleanup at startup\<close>

lemma osRemove_effect:
  "\<exists>r. events (snd (osRemove d name w)) = events w @ [RemoveFile name r]"
  "storageFolders (snd (osRemove d name w)) = storageFolders w"
  "uncommittedChanges (snd (osRemove d name w)) = uncommittedChanges w"
  "n \<noteq> name \<Longrightarrow> files (snd (osRemove d name w)) n = files w n"
  by (simp_all add: osRemove_def split: option.splits)

lemma cleanup_iteration:
  "\<exists>w3. (let sectorHousingName = filepathJoin d (Path sf) (sectorFile c);
              (err, w1) = osRemove d sectorHousingName w;
              w2 = (if err \<noteq> None
                    then emit (LogPrintln [Str ''Unable to remove documented sector housing:'',
                                           Str sectorHousingName, Err err]) w1
                    else w1)
          in appendChange d (erroredRecord (Index sf)) w2) = (appendErr d (erroredRecord (Index sf)), w3)
       \<and> appendsOf (events w3) = appendsOf (events w) @ [erroredRecord (Index sf)]
       \<and> removesOf (events w3) = removesOf (events w) @ [filepathJoin d (Path sf) (sectorFile c)]
       \<and> (\<forall>n. n \<noteq> filepathJoin d (Path sf) (sectorFile c) \<longrightarrow> files w3 n = files w n)
       \<and> storageFolders w3 = storageFolders w
       \<and> uncommittedChanges w3 =
           uncommittedChanges w @ (if appendErr d (erroredRecord (Index sf)) = None then [erroredRecord (Index sf)] else [])"
  by (auto simp: Let_def split_beta osRemove_def appendChange_def emit_def split: option.splits)

lemma cleanupLoop_Cons:
  "cleanupLoop c d (sf # sfs) w =
     (let (err, w3) =
            (let sectorHousingName = filepathJoin d (Path sf) (sectorFile c);
                 (err, w1) = osRemove d sectorHousingName w;
                 w2 = (if err \<noteq> None
                       then emit (LogPrintln [Str ''Unable to remove documented sector housing:'',
                                              Str sectorHousingName, Err err]) w1
                       else w1)
             in appendChange d (erroredRecord (Index sf)) w2)
      in if err \<noteq> None
         then (ExtendErr ''unable to close out unfinished storage folder addition'' err, w3)
         else cleanupLoop c d sfs w3)"
  by (simp add: Let_def split_beta erroredRecord_def)

lemma cleanupLoop_stops:
  assumes fail: "appendErr d (erroredRecord (Index sf)) = Some e"
  shows "\<forall>x \<in> set pre. appendErr d (erroredRecord (Index x)) = None \<Longrightarrow>
    \<exists>w'. cleanupLoop c d (pre @ sf # rest) w =
            (Some (Extended ''unable to close out unfinished storage folder addition'' e), w')
        \<and> appendsOf (events w') = appendsOf (events w) @ map (\<lambda>x. erroredRecord (Index x)) (pre @ [sf])
        \<and> removesOf (events w') =
            removesOf (events w) @ map (\<lambda>x. filepathJoin d (Path x) (sectorFile c)) (pre @ [sf])
        \<and> (\<forall>n. n \<notin> (\<lambda>x. filepathJoin d (Path x) (sectorFile c)) ` set (pre @ [sf]) \<longrightarrow> files w' n = files w n)
        \<and> storageFolders w' = storageFolders w
        \<and> uncommittedChanges w' = uncommittedChanges w @ map (\<lambda>x. erroredRecord (Index x)) pre"
proof (induction pre arbitrary: w)
  case Nil
  from cleanup_iteration [of d sf c w] obtain w3 where
    it: "(let sectorHousingName = filepathJoin d (Path sf) (sectorFile c);
              (err, w1) = osRemove d sectorHousingName w;
              w2 = (if err \<noteq> None
                    then emit (LogPrintln [Str ''Unable to remove documented sector housing:'',
                                           Str sectorHousingName, Err err]) w1
                    else w1)
          in appendChange d (erroredRecord (Index sf)) w2) = (appendErr d (erroredRecord (Index sf)), w3)"
    and w3: "appendsOf (events w3) = appendsOf (events w) @ [erroredRecord (Index sf)]"
      "removesOf (events w3) = removesOf (events w) @ [filepathJoin d (Path sf) (sectorFile c)]"
      "\<forall>n. n \<noteq> filepathJoin d (Path sf) (sectorFile c) \<longrightarrow> files w3 n = files w n"
      "storageFolders w3 = storageFolders w"
      "uncommittedChanges w3 =
         uncommittedChanges w @ (if appendErr d (erroredRecord (Index sf)) = None then [erroredRecord (Index sf)] else [])"
    by blast
  have "cleanupLoop c d ([] @ sf # rest) w =
          (Some (Extended ''unable to close out unfinished storage folder addition'' e), w3)"
    by (simp only: append_Nil cleanupLoop_Cons it) (simp add: fail)
  with w3 fail show ?case by simp
next
  case (Cons x pre)
  then have okx: "appendErr d (erroredRecord (Index x)) = None"
    and okpre: "\<forall>y \<in> set pre. appendErr d (erroredRecord (Index y)) = None"
    by simp_all
  from cleanup_iteration [of d x c w] obtain w3 where
    it: "(let sectorHousingName = filepathJoin d (Path x) (sectorFile c);
              (err, w1) = osRemove d sectorHousingName w;
              w2 = (if err \<noteq> None
                    then emit (LogPrintln [Str ''Unable to remove documented sector housing:'',
                                           Str sectorHousingName, Err err]) w1
                    else w1)
          in appendChange d (erroredRecord (Index x)) w2) = (appendErr d (erroredRecord (Index x)), w3)"
    and w3: "appendsOf (events w3) = appendsOf (events w) @ [erroredRecord (Index x)]"
      "removesOf (events w3) = removesOf (events w) @ [filepathJoin d (Path x) (sectorFile c)]"
      "\<forall>n. n \<noteq> filepathJoin d (Path x) (sectorFile c) \<longrightarrow> files w3 n = files w n"
      "storageFolders w3 = storageFolders w"
      "uncommittedChanges w3 =
         uncommittedChanges w @ (if appendErr d (erroredRecord (Index x)) = None then [erroredRecord (Index x)] else [])"
    by blast
  have step: "cleanupLoop c d ((x # pre) @ sf # rest) w = cleanupLoop c d (pre @ sf # rest) w3"
    by (simp only: append_Cons cleanupLoop_Cons it) (simp add: okx)
  from Cons.IH [OF okpre, of w3] obtain w' where
    r: "cleanupLoop c d (pre @ sf # rest) w3 =
            (Some (Extended ''unable to close out unfinished storage folder addition'' e), w')"
    and w': "appendsOf (events w') = appendsOf (events w3) @ map (\<lambda>x. erroredRecord (Index x)) (pre @ [sf])"
      "removesOf (events w') =
         removesOf (events w3) @ map (\<lambda>x. filepathJoin d (Path x) (sectorFile c)) (pre @ [sf])"
      "\<forall>n. n \<notin> (\<lambda>x. filepathJoin d (Path x) (sectorFile c)) ` set (pre @ [sf]) \<longrightarrow> files w' n = files w3 n"
      "storageFolders w' = storageFolders w3"
      "uncommittedChanges w' = uncommittedChanges w3 @ map (\<lambda>x. erroredRecord (Index x)) pre"
    by blast
  from w'(3) w3(3)
  have fs: "\<forall>n. n \<notin> (\<lambda>x. filepathJoin d (Path x) (sectorFile c)) ` set ((x # pre) @ [sf]) \<longrightarrow> files w' n = files w n"
    by simp
  from r step w' w3 okx fs show ?case
    by simp
qed

text \<open>
  C9. Let the unfinished folders be \<open>pre @ sf # rest\<close> in the order the loop takes
  them, let the append of the errored record succeed for every folder of \<open>pre\<close> and
  fail with \<open>e\<close> for \<open>sf\<close>. Then the cleanup returns \<open>e\<close>, extended with its
  context, and has done nothing for \<open>rest\<close>: the records it tried to append are the
  errored records of \<open>pre @ [sf]\<close>, the files it tried to remove are the backing
  files of \<open>pre @ [sf]\<close>, and every other file is as it was.
\<close>

theorem cleanup_stops_at_append_failure:
  assumes order: "findUnfinishedStorageFolderAdditions d scs = pre @ sf # rest"
    and ok: "\<forall>x \<in> set pre. appendErr d (erroredRecord (Index x)) = None"
    and fail: "appendErr d (erroredRecord (Index sf)) = Some e"
  shows "\<exists>w'. cleanupUnfinishedStorageFolderAdditions c d scs w =
            (Some (Extended ''unable to close out unfinished storage folder addition'' e), w')
        \<and> appendsOf (events w') = appendsOf (events w) @ map (\<lambda>x. erroredRecord (Index x)) (pre @ [sf])
        \<and> removesOf (events w') =
            removesOf (events w) @ map (\<lambda>x. filepathJoin d (Path x) (sectorFile c)) (pre @ [sf])
        \<and> (\<forall>n. n \<notin> (\<lambda>x. filepathJoin d (Path x) (sectorFile c)) ` set (pre @ [sf]) \<longrightarrow> files w' n = files w n)
        \<and> uncommittedChanges w' = uncommittedChanges w @ map (\<lambda>x. erroredRecord (Index x)) pre"
  using cleanupLoop_stops [OF fail ok, of c rest w]
  unfolding cleanupUnfinishedStorageFolderAdditions_def order
  by blast

lemma exLogThree_unfinished:
  "findUnfinishedStorageFolderAdditions exAppendFailDeps exLogThree =
     [exFolder 1 ''/mnt/a''] @ exFolder 2 ''/mnt/b'' # [exFolder 3 ''/mnt/c'']"
  by (simp add: exLogThree_def find_defs ex_defs exAppendFailDeps_def)

theorem cleanup_stops_at_append_failure_witness:
  "fst (cleanupUnfinishedStorageFolderAdditions exConstants exAppendFailDeps exLogThree exCleanupWorld)
     = Some (Extended ''unable to close out unfinished storage folder addition'' (OSError ''log write failed''))
   \<and> removesOf (events (snd (cleanupUnfinishedStorageFolderAdditions exConstants exAppendFailDeps
                               exLogThree exCleanupWorld)))
       = [''/mnt/a/siahostdata.dat'', ''/mnt/b/siahostdata.dat'']
   \<and> files (snd (cleanupUnfinishedStorageFolderAdditions exConstants exAppendFailDeps exLogThree exCleanupWorld))
        ''/mnt/c/siahostdata.dat'' = Some 300"
proof -
  let ?name = "\<lambda>x. filepathJoin exAppendFailDeps (Path x) (sectorFile exConstants)"
  have ok: "\<forall>x \<in> set [exFolder 1 ''/mnt/a'']. appendErr exAppendFailDeps (erroredRecord (Index x)) = None"
    by (simp add: exAppendFailDeps_def ex_defs)
  have fail: "appendErr exAppendFailDeps (erroredRecord (Index (exFolder 2 ''/mnt/b''))) = Some (OSError ''log write failed'')"
    by (simp add: exAppendFailDeps_def ex_defs)
  from cleanup_stops_at_append_failure [OF exLogThree_unfinished ok fail, of exConstants exCleanupWorld]
  obtain w' where
    r: "cleanupUnfinishedStorageFolderAdditions exConstants exAppendFailDeps exLogThree exCleanupWorld =
          (Some (Extended ''unable to close out unfinished storage folder addition'' (OSError ''log write failed'')), w')"
    and rm: "removesOf (events w') =
               removesOf (events exCleanupWorld) @ map ?name ([exFolder 1 ''/mnt/a''] @ [exFolder 2 ''/mnt/b''])"
    and fs: "\<forall>n. n \<notin> ?name ` set ([exFolder 1 ''/mnt/a''] @ [exFolder 2 ''/mnt/b'']) \<longrightarrow> files w' n = files exCleanupWorld n"
    by blast
  have "''/mnt/c/siahostdata.dat'' \<notin> ?name ` set ([exFolder 1 ''/mnt/a''] @ [exFolder 2 ''/mnt/b''])"
    by (simp add: exAppendFailDeps_def ex_defs)
  with fs have "files w' ''/mnt/c/siahostdata.dat'' = files exCleanupWorld ''/mnt/c/siahostdata.dat''"
    by blast
  then have f: "files w' ''/mnt/c/siahostdata.dat'' = Some 300"
    by (simp add: exCleanupWorld_def)
  from rm have "removesOf (events w') = [''/mnt/a/siahostdata.dat'', ''/mnt/b/siahostdata.dat'']"
    by (simp add: exAppendFailDeps_def ex_defs exCleanupWorld_def)
  with r f show ?thesis by simp
qed

subsection \<open>Where the code departs from its own comments\<close>

text \<open>
  C3. The registry holds eight folders and the maximum is eight. The check of line 113
  is \<^verbatim>\<open>len(uniqueFolders) > maximumStorageFolders\<close>, so the call is not rejected: it
  returns \<^verbatim>\<open>nil\<close>, the registry holds nine folders afterwards, two records were
  appended and the backing file was created and written.
\<close>

theorem capacity_check_off_by_one:
  "card (uniqueFolders exFullWorld) = unat (maximumStorageFolders exConstants)
   \<and> fst (AddStorageFolder exConstants exDeps ''/mnt/new'' 262144 exFullWorld) = None
   \<and> map fst (storageFolders (snd (AddStorageFolder exConstants exDeps ''/mnt/new'' 262144 exFullWorld)))
       = [0, 1, 2, 3, 4, 5, 6, 7, 8]
   \<and> length (appendsOf (events (snd (AddStorageFolder exConstants exDeps ''/mnt/new'' 262144 exFullWorld)))) = 2
   \<and> files (snd (AddStorageFolder exConstants exDeps ''/mnt/new'' 262144 exFullWorld)) ''/mnt/new/siahostdata.dat''
       = Some 263040"
  by (simp add: run_defs ex_defs exFullWorld_def)

text \<open>
  C4. A folder of 2048 sectors of 4096 bytes has a total size of 8417280 bytes: two
  chunks of 4e6 bytes and a last chunk of 417280 bytes. The numerator is 8000000 after
  the second chunk and stays there when the last chunk is written and synced, because
  line 215 stores the total size in the denominator again; it never is 8417280. Then
  both counters are stored as zero.
\<close>

theorem progress_numerator_short_of_total:
  "fst (AddStorageFolder exConstants exDeps ''/mnt/c'' 8388608 emptyWorld) = None
   \<and> files (snd (AddStorageFolder exConstants exDeps ''/mnt/c'' 8388608 emptyWorld)) ''/mnt/c/siahostdata.dat''
       = Some 8417280
   \<and> progressOf (events (snd (AddStorageFolder exConstants exDeps ''/mnt/c'' 8388608 emptyWorld)))
       = [(0, 8417280), (4000000, 8417280), (8000000, 8417280), (8000000, 8417280), (0, 8417280), (0, 0)]"
  by (simp add: run_defs ex_defs)

text \<open>
  C7. The write fails, and in the deferred function both the append of the errored
  record and the removal of the file are tried and fail. The deferred function composes
  the three errors in the local variable \<^verbatim>\<open>err\<close>, but the function returns what the
  \<^verbatim>\<open>return\<close> statement had fixed: the write error alone.
\<close>

theorem rollback_errors_not_returned:
  "fst (managedAddStorageFolder exConstants exFailDeps exNewFolder emptyWorld)
     = Some (Extended ''could not allocate storage folder'' (OSError ''no space left on device''))
   \<and> drop 3 (events (snd (snd (managedAddStorageFolder exConstants exFailDeps exNewFolder emptyWorld))))
       = [WriteFile ''/mnt/c/siahostdata.dat'' 263040 (Some (OSError ''no space left on device'')),
          AppendChange (erroredRecord 5) (Some (OSError ''log write failed'')),
          RemoveFile ''/mnt/c/siahostdata.dat'' (Some (OSError ''permission denied''))]
   \<and> fst (managedAddStorageFolder_deferred exFailDeps ''/mnt/c/siahostdata.dat''
            (Some (OSError ''no space left on device'')) (exNewFolder\<lparr>Index := 5\<rparr>)
            (emptyWorld\<lparr>files := [''/mnt/c/siahostdata.dat'' \<mapsto> 0]\<rparr>))
       = Some (Composed [Composed [OSError ''no space left on device'', OSError ''log write failed''],
                         OSError ''permission denied''])"
  by (simp add: run_defs ex_defs exFailDeps_def exNewFolder_def)

end
